theory Spec2Isabelle
  imports
    Complex_Main
    "HOL-Library.AList"
    "HOL-Library.Char_ord"
    "HOL-Library.List_Lexorder"
    "HOL-Library.Option_ord"
begin

section \<open>Events of the kafka dump\<close>

text \<open>
  The events of \<^verbatim>\<open>helper_scripts/analyze.py\<close> are JSON objects read with
  \<^verbatim>\<open>json.load\<close>. Each record below has the keys the script reads from the events
  of one topic: \<^verbatim>\<open>holding_cost\<close> (merchant_id, cost), \<^verbatim>\<open>buyOffer\<close> (merchant_id,
  timestamp, amount, price, http_code) and \<^verbatim>\<open>producer\<close> (merchant_id, timestamp,
  amount, billing_amount). The timestamp is a string in the dump and a
  \<^verbatim>\<open>datetime\<close> after \<^verbatim>\<open>convert_timestamps\<close>, so its type is a parameter.
  Quantities are Python integers (\<open>int\<close>); prices and costs are Python floats, read
  here as real numbers, with every sum taken in the order of the events.
\<close>

datatype error = ValueError | KeyError | IndexError

record event =
  merchant_id :: string

record holding_event = event +
  cost :: real

record 't stock_event = event +
  timestamp :: 't
  amount :: int

record 't sale_event = "'t stock_event" +
  price :: real
  http_code :: int

record 't order_event = "'t stock_event" +
  billing_amount :: real

section \<open>Dictionaries\<close>

text \<open>
  A Python dictionary is an association list in insertion order: \<open>AList.update\<close>
  replaces the value of a key in place and puts a new key at the end, as a
  \<^verbatim>\<open>dict\<close> does. \<open>dd_get dflt\<close> reads a \<^verbatim>\<open>defaultdict\<close> whose factory returns
  \<open>dflt\<close>; \<open>dict_get\<close> is \<^verbatim>\<open>d[k]\<close> on a plain dictionary, which raises
  \<^verbatim>\<open>KeyError\<close> on a missing key.
\<close>

definition dd_get :: "'v \<Rightarrow> (string \<times> 'v) list \<Rightarrow> string \<Rightarrow> 'v" where
  "dd_get dflt d k = (case map_of d k of None \<Rightarrow> dflt | Some v \<Rightarrow> v)"

definition dd_add :: "string \<Rightarrow> real \<Rightarrow> (string \<times> real) list \<Rightarrow> (string \<times> real) list" where
  \<comment> \<open>\<^verbatim>\<open>d[k] += v\<close> on a \<^verbatim>\<open>defaultdict(float)\<close>\<close>
  "dd_add k v d = AList.update k (dd_get 0 d k + v) d"

definition dd_append :: "string \<Rightarrow> 'a \<Rightarrow> (string \<times> 'a list) list \<Rightarrow> (string \<times> 'a list) list" where
  \<comment> \<open>\<^verbatim>\<open>d[k].append(x)\<close> on a \<^verbatim>\<open>defaultdict(list)\<close>\<close>
  "dd_append k x d = AList.update k (dd_get [] d k @ [x]) d"

definition dict_get :: "(string \<times> 'v) list \<Rightarrow> string \<Rightarrow> error + 'v" where
  "dict_get d k = (case map_of d k of None \<Rightarrow> Inl KeyError | Some v \<Rightarrow> Inr v)"

definition list_index :: "'a list \<Rightarrow> nat \<Rightarrow> error + 'a" where
  \<comment> \<open>\<^verbatim>\<open>xs[i]\<close> for an index \<open>i \<ge> 0\<close>\<close>
  "list_index xs i = (if i < length xs then Inr (xs ! i) else Inl IndexError)"

fun for_each :: "('a \<Rightarrow> error + 'b) \<Rightarrow> 'a list \<Rightarrow> error + 'b list" where
  \<comment> \<open>a \<^verbatim>\<open>for\<close> loop that produces one result for each element and stops at the first exception\<close>
  "for_each f [] = Inr []"
| "for_each f (x # xs) =
     (case f x of
        Inl e \<Rightarrow> Inl e
      | Inr y \<Rightarrow> (case for_each f xs of Inl e \<Rightarrow> Inl e | Inr ys \<Rightarrow> Inr (y # ys)))"

section \<open>The financial summary (\<^verbatim>\<open>analyze_kafka_dump\<close>, lines 23 to 49)\<close>

definition revenue :: "('t, 'z) sale_event_scheme list \<Rightarrow> (string \<times> real) list" where
  "revenue buyOffer =
     foldl (\<lambda>d ev. dd_add (merchant_id ev) (real_of_int (amount ev) * price ev) d) [] buyOffer"

definition holding_cost :: "'z holding_event_scheme list \<Rightarrow> (string \<times> real) list" where
  "holding_cost holding = foldl (\<lambda>d ev. dd_add (merchant_id ev) (cost ev) d) [] holding"

definition order_cost :: "('t, 'z) order_event_scheme list \<Rightarrow> (string \<times> real) list" where
  "order_cost producer =
     foldl (\<lambda>d ev. dd_add (merchant_id ev) (billing_amount ev) d) [] producer"

definition profit ::
  "(string \<times> string) list \<Rightarrow> (string \<times> real) list \<Rightarrow> (string \<times> real) list \<Rightarrow>
   (string \<times> real) list \<Rightarrow> (string \<times> real) list" where
  \<comment> \<open>the dictionary comprehension of lines 41 and 42, over the keys of the mapping\<close>
  "profit merchant_id_mapping rv hc oc =
     foldl (\<lambda>d k. AList.update k (dd_get 0 rv k - dd_get 0 hc k - dd_get 0 oc k) d) []
       (map fst merchant_id_mapping)"

definition table_order :: "(string \<times> string) list \<Rightarrow> string list" where
  \<comment> \<open>\<^verbatim>\<open>sorted(merchant_id_mapping, key=merchant_id_mapping.get)\<close>\<close>
  "table_order merchant_id_mapping =
     sort_key (map_of merchant_id_mapping) (map fst merchant_id_mapping)"

type_synonym row = "string \<times> real \<times> real \<times> real \<times> real"

definition table_row ::
  "(string \<times> string) list \<Rightarrow> (string \<times> real) list \<Rightarrow> (string \<times> real) list \<Rightarrow>
   (string \<times> real) list \<Rightarrow> (string \<times> real) list \<Rightarrow> string \<Rightarrow> error + row" where
  \<comment> \<open>the row of lines 48 and 49: name, revenue, holding_cost, order_cost, profit\<close>
  "table_row merchant_id_mapping rv hc oc pf k =
     (case dict_get merchant_id_mapping k of
        Inl e \<Rightarrow> Inl e
      | Inr name \<Rightarrow>
          (case dict_get pf k of
             Inl e \<Rightarrow> Inl e
           | Inr p \<Rightarrow> Inr (name, dd_get 0 rv k, dd_get 0 hc k, dd_get 0 oc k, p)))"

definition analyze_kafka_dump ::
  "(string \<times> string) list \<Rightarrow> ('t, 'y) sale_event_scheme list \<Rightarrow> 'z holding_event_scheme list \<Rightarrow>
   ('t, 'x) order_event_scheme list \<Rightarrow> error + row list" where
  \<comment> \<open>the rows written to \<^verbatim>\<open>results.csv\<close> after the header\<close>
  "analyze_kafka_dump merchant_id_mapping buyOffer holding producer =
     (let rv = revenue buyOffer;
          hc = holding_cost holding;
          oc = order_cost producer;
          pf = profit merchant_id_mapping rv hc oc
      in for_each (table_row merchant_id_mapping rv hc oc pf)
           (table_order merchant_id_mapping))"

section \<open>The inventory reconstruction (\<^verbatim>\<open>create_inventory_graph\<close>, lines 56 to 92)\<close>

subsection \<open>\<^verbatim>\<open>convert_timestamps\<close>, lines 164 to 167\<close>

text \<open>
  \<open>strptime\<close> stands for \<^verbatim>\<open>datetime.strptime(_, '%Y-%m-%dT%H:%M:%S.%fZ')\<close> of the
  Python library: \<open>None\<close> where it raises \<^verbatim>\<open>ValueError\<close>. The result type needs a
  linear order only.
\<close>

definition convert_timestamp ::
  "(string \<Rightarrow> 't option) \<Rightarrow> (string, 'z) stock_event_scheme \<Rightarrow>
   error + ('t, 'z) stock_event_scheme" where
  "convert_timestamp strptime ev =
     (case strptime (timestamp ev) of
        None \<Rightarrow> Inl ValueError
      | Some t \<Rightarrow>
          Inr \<lparr>merchant_id = merchant_id ev, timestamp = t, amount = amount ev,
               \<dots> = stock_event.more ev\<rparr>)"

definition convert_timestamps ::
  "(string \<Rightarrow> 't option) \<Rightarrow> (string, 'z) stock_event_scheme list \<Rightarrow>
   error + ('t, 'z) stock_event_scheme list" where
  "convert_timestamps strptime events = for_each (convert_timestamp strptime) events"

subsection \<open>The merge loop, lines 65 to 85\<close>

record 't merge_state =
  sale_index :: nat
  order_index :: nat
  inventory_progressions :: "(string \<times> ('t \<times> int) list) list"

text \<open>
  The four branches of the loop body, in the order of the \<^verbatim>\<open>if\<close>/\<^verbatim>\<open>elif\<close> chain.
  Each iteration appends one pair to the list of one merchant; the loop below also
  returns, for every iteration, the branch that ran and the triple
  (merchant, timestamp, change) it put in, which is the merged sequence of deltas.
\<close>

datatype branch = Sales_exhausted | Orders_exhausted | Order_first | Sale_first

type_synonym 't delta = "string \<times> 't \<times> int"

definition order_delta :: "('t, 'z) stock_event_scheme \<Rightarrow> 't delta" where
  "order_delta order = (merchant_id order, timestamp order, amount order)"

definition sale_delta :: "('t, 'z) stock_event_scheme \<Rightarrow> 't delta" where
  "sale_delta sale = (merchant_id sale, timestamp sale, -1 * amount sale)"

definition record_delta ::
  "'t delta \<Rightarrow> (string \<times> ('t \<times> int) list) list \<Rightarrow> (string \<times> ('t \<times> int) list) list" where
  "record_delta d ip = dd_append (fst d) (snd d) ip"

definition take_order :: "('t, 'z) stock_event_scheme \<Rightarrow> 't merge_state \<Rightarrow> 't merge_state" where
  "take_order order st =
     st\<lparr>inventory_progressions := record_delta (order_delta order) (inventory_progressions st),
        order_index := order_index st + 1\<rparr>"

definition take_sale :: "('t, 'z) stock_event_scheme \<Rightarrow> 't merge_state \<Rightarrow> 't merge_state" where
  "take_sale sale st =
     st\<lparr>inventory_progressions := record_delta (sale_delta sale) (inventory_progressions st),
        sale_index := sale_index st + 1\<rparr>"

definition merge_body ::
  "('t::linorder, 'y) stock_event_scheme list \<Rightarrow> ('t, 'z) stock_event_scheme list \<Rightarrow>
   't merge_state \<Rightarrow> error + ((branch \<times> 't delta) \<times> 't merge_state)" where
  "merge_body sales orders st =
     (if sale_index st \<ge> length sales then
        (case list_index orders (order_index st) of
           Inl e \<Rightarrow> Inl e
         | Inr order \<Rightarrow> Inr ((Sales_exhausted, order_delta order), take_order order st))
      else if order_index st \<ge> length orders then
        (case list_index sales (sale_index st) of
           Inl e \<Rightarrow> Inl e
         | Inr sale \<Rightarrow> Inr ((Orders_exhausted, sale_delta sale), take_sale sale st))
      else
        (case list_index orders (order_index st) of
           Inl e \<Rightarrow> Inl e
         | Inr order \<Rightarrow>
             (case list_index sales (sale_index st) of
                Inl e \<Rightarrow> Inl e
              | Inr sale \<Rightarrow>
                  if timestamp order \<le> timestamp sale
                  then Inr ((Order_first, order_delta order), take_order order st)
                  else Inr ((Sale_first, sale_delta sale), take_sale sale st))))"

function merge_loop ::
  "('t::linorder, 'y) stock_event_scheme list \<Rightarrow> ('t, 'z) stock_event_scheme list \<Rightarrow>
   't merge_state \<Rightarrow> error + ((branch \<times> 't delta) list \<times> 't merge_state)" where
  "merge_loop sales orders st =
     (if sale_index st < length sales \<and> order_index st < length orders then
        (case merge_body sales orders st of
           Inl e \<Rightarrow> Inl e
         | Inr (step, st') \<Rightarrow>
             (case merge_loop sales orders st' of
                Inl e \<Rightarrow> Inl e
              | Inr (steps, st'') \<Rightarrow> Inr (step # steps, st'')))
      else Inr ([], st))"
  by pat_completeness auto
termination
proof (relation "measure (\<lambda>(sales, orders, st).
         (length sales - sale_index st) + (length orders - order_index st))", goal_cases)
  case 1
  show ?case by simp
next
  case (2 sales orders st x step st')
  then show ?case
    by (auto simp: merge_body_def list_index_def take_order_def take_sale_def
             split: if_splits)
qed

declare merge_loop.simps [simp del]

subsection \<open>The whole function\<close>

definition initial_state :: "'t merge_state" where
  \<comment> \<open>lines 65 to 67\<close>
  "initial_state = \<lparr>sale_index = 0, order_index = 0, inventory_progressions = []\<rparr>"

definition merged_inventory ::
  "(string \<Rightarrow> 't::linorder option) \<Rightarrow> string sale_event list \<Rightarrow> string order_event list \<Rightarrow>
   error + ((branch \<times> 't delta) list \<times> 't merge_state)" where
  \<comment> \<open>lines 60 to 85: filter the sales, convert the timestamps, run the loop\<close>
  "merged_inventory strptime buyOffer producer =
     (let sales = filter (\<lambda>sale. http_code sale = 200) buyOffer in
      case convert_timestamps strptime sales of
        Inl e \<Rightarrow> Inl e
      | Inr sales' \<Rightarrow>
          (case convert_timestamps strptime producer of
             Inl e \<Rightarrow> Inl e
           | Inr orders' \<Rightarrow>
               merge_loop sales' orders' initial_state))"

text \<open>
  \<^verbatim>\<open>itertools.accumulate\<close> gives the running totals; \<^verbatim>\<open>zip(*pairs)\<close> unpacked into two
  names raises \<^verbatim>\<open>ValueError\<close> on an empty list; the label of a series is looked up
  in the mapping, which raises \<^verbatim>\<open>KeyError\<close> for a merchant the mapping does not have.
\<close>

fun accumulate_from :: "int \<Rightarrow> int list \<Rightarrow> int list" where
  "accumulate_from acc [] = [acc]"
| "accumulate_from acc (x # xs) = acc # accumulate_from (acc + x) xs"

fun accumulate :: "int list \<Rightarrow> int list" where
  "accumulate [] = []"
| "accumulate (x # xs) = accumulate_from x xs"

definition unzip :: "('a \<times> 'b) list \<Rightarrow> error + ('a list \<times> 'b list)" where
  "unzip ps = (if ps = [] then Inl ValueError else Inr (map fst ps, map snd ps))"

record 't step_series =
  label :: string
  dates :: "'t list"
  inventory_levels :: "int list"

definition series_of ::
  "(string \<times> string) list \<Rightarrow> (string \<times> ('t \<times> int) list) list \<Rightarrow> string \<Rightarrow>
   error + 't step_series" where
  \<comment> \<open>the body of the loop of lines 89 to 92\<close>
  "series_of merchant_id_mapping ip m =
     (case unzip (dd_get [] ip m) of
        Inl e \<Rightarrow> Inl e
      | Inr (ds, inventory_changes) \<Rightarrow>
          (case dict_get merchant_id_mapping m of
             Inl e \<Rightarrow> Inl e
           | Inr name \<Rightarrow>
               Inr \<lparr>label = name, dates = ds,
                    inventory_levels = accumulate inventory_changes\<rparr>))"

definition create_inventory_graph ::
  "(string \<Rightarrow> 't::linorder option) \<Rightarrow> (string \<times> string) list \<Rightarrow> string sale_event list \<Rightarrow>
   string order_event list \<Rightarrow> error + 't step_series list" where
  \<comment> \<open>the series drawn into \<^verbatim>\<open>inventory_levels.svg\<close>, in the order they are drawn\<close>
  "create_inventory_graph strptime merchant_id_mapping buyOffer producer =
     (case merged_inventory strptime buyOffer producer of
        Inl e \<Rightarrow> Inl e
      | Inr (steps, st) \<Rightarrow>
          for_each (series_of merchant_id_mapping (inventory_progressions st))
            (map fst (inventory_progressions st)))"

section \<open>Notions used to state the properties\<close>

text \<open>
  \<open>interleave orders sales\<close> is what the loop does from the events it has not
  consumed yet, written by recursion on the two remaining lists: it compares the two
  heads as line 78 does and stops when either list is empty, as the loop condition of
  line 69 does. Lemma \<open>merge_loop_steps\<close> below proves that the loop computes it.
\<close>

fun interleave ::
  "('t::linorder, 'z) stock_event_scheme list \<Rightarrow> ('t, 'y) stock_event_scheme list \<Rightarrow>
   (branch \<times> 't delta) list" where
  "interleave (order # orders) (sale # sales) =
     (if timestamp order \<le> timestamp sale
      then (Order_first, order_delta order) # interleave orders (sale # sales)
      else (Sale_first, sale_delta sale) # interleave (order # orders) sales)"
| "interleave [] sales = []"
| "interleave orders [] = []"

text \<open>
  The part of the merged sequence of deltas that belongs to one merchant, in the order
  of the merged sequence.
\<close>

definition partition_of :: "string \<Rightarrow> (branch \<times> 't delta) list \<Rightarrow> ('t \<times> int) list" where
  "partition_of m steps = map snd (filter (\<lambda>d. fst d = m) (map snd steps))"

text \<open>
  The row of the table for a key \<open>k\<close> of the mapping, from the sums of the three
  dictionaries.
\<close>

definition summary_row ::
  "(string \<times> string) list \<Rightarrow> ('t, 'y) sale_event_scheme list \<Rightarrow> 'z holding_event_scheme list \<Rightarrow>
   ('t, 'x) order_event_scheme list \<Rightarrow> string \<Rightarrow> row" where
  "summary_row merchant_id_mapping buyOffer holding producer k =
     (dd_get [] merchant_id_mapping k,
      dd_get 0 (revenue buyOffer) k,
      dd_get 0 (holding_cost holding) k,
      dd_get 0 (order_cost producer) k,
      dd_get 0 (revenue buyOffer) k - dd_get 0 (holding_cost holding) k
        - dd_get 0 (order_cost producer) k)"

section \<open>Example dumps\<close>

definition example_mapping :: "(string \<times> string) list" where
  "example_mapping = [(''m1'', ''Acme''), (''m2'', ''Bolt'')]"

definition example_holding :: "holding_event list" where
  "example_holding = [\<lparr>merchant_id = ''m1'', cost = 1\<rparr>]"

definition example_buyOffer :: "string sale_event list" where
  "example_buyOffer =
     [\<lparr>merchant_id = ''m1'', timestamp = ''2018-06-01T12:00:01.000000Z'', amount = 2,
       price = 5, http_code = 200\<rparr>,
      \<lparr>merchant_id = ''m2'', timestamp = ''2018-06-01T12:00:02.000000Z'', amount = 1,
       price = 10, http_code = 200\<rparr>]"

definition example_producer :: "string order_event list" where
  "example_producer =
     [\<lparr>merchant_id = ''m1'', timestamp = ''2018-06-01T12:00:00.000000Z'', amount = 5,
       billing_amount = 3\<rparr>]"

definition stranger_buyOffer :: "string sale_event list" where
  "stranger_buyOffer =
     [\<lparr>merchant_id = ''m3'', timestamp = ''2018-06-01T12:00:01.000000Z'', amount = 2,
       price = 5, http_code = 200\<rparr>]"

text \<open>
  A stand-in for \<^verbatim>\<open>strptime\<close> on the timestamps of the examples: the seconds after
  noon of the five timestamps below, which the format of line 167 accepts, and
  \<open>None\<close> for every other string, among them \<open>''yesterday''\<close>, which the format rejects.
\<close>

definition example_strptime :: "string \<Rightarrow> nat option" where
  "example_strptime =
     map_of [(''2018-06-01T12:00:00.000000Z'', 0), (''2018-06-01T12:00:01.000000Z'', 1),
             (''2018-06-01T12:00:02.000000Z'', 2), (''2018-06-01T12:00:05.000000Z'', 5),
             (''2018-06-01T12:00:07.000000Z'', 7)]"

definition rejected_sale :: "string sale_event" where
  "rejected_sale =
     \<lparr>merchant_id = ''m2'', timestamp = ''yesterday'', amount = 4, price = 10,
      http_code = 409\<rparr>"

definition restocked_producer :: "string order_event list" where
  "restocked_producer =
     [\<lparr>merchant_id = ''m1'', timestamp = ''2018-06-01T12:00:00.000000Z'', amount = 5,
       billing_amount = 3\<rparr>,
      \<lparr>merchant_id = ''m1'', timestamp = ''2018-06-01T12:00:05.000000Z'', amount = 7,
       billing_amount = 4\<rparr>]"

definition unsorted_producer :: "string order_event list" where
  "unsorted_producer =
     [\<lparr>merchant_id = ''m1'', timestamp = ''2018-06-01T12:00:01.000000Z'', amount = 7,
       billing_amount = 4\<rparr>,
      \<lparr>merchant_id = ''m1'', timestamp = ''2018-06-01T12:00:00.000000Z'', amount = 5,
       billing_amount = 3\<rparr>]"

definition unparsed_sale :: "string sale_event" where
  "unparsed_sale =
     \<lparr>merchant_id = ''m2'', timestamp = ''yesterday'', amount = 4, price = 10,
      http_code = 200\<rparr>"

text \<open>Events after \<^verbatim>\<open>convert_timestamps\<close>, with the timestamps as seconds.\<close>

definition example_sales :: "nat sale_event list" where
  "example_sales =
     [\<lparr>merchant_id = ''m1'', timestamp = 1, amount = 2, price = 5, http_code = 200\<rparr>,
      \<lparr>merchant_id = ''m2'', timestamp = 2, amount = 1, price = 10, http_code = 200\<rparr>]"

definition example_orders :: "nat order_event list" where
  "example_orders =
     [\<lparr>merchant_id = ''m1'', timestamp = 0, amount = 5, billing_amount = 3\<rparr>]"

definition tied_orders :: "nat order_event list" where
  "tied_orders =
     [\<lparr>merchant_id = ''m1'', timestamp = 1, amount = 5, billing_amount = 3\<rparr>,
      \<lparr>merchant_id = ''m1'', timestamp = 5, amount = 7, billing_amount = 4\<rparr>]"

definition unsorted_orders :: "nat order_event list" where
  "unsorted_orders =
     [\<lparr>merchant_id = ''m1'', timestamp = 5, amount = 7, billing_amount = 4\<rparr>,
      \<lparr>merchant_id = ''m1'', timestamp = 0, amount = 5, billing_amount = 3\<rparr>]"

definition late_sales :: "nat sale_event list" where
  "late_sales =
     [\<lparr>merchant_id = ''m1'', timestamp = 7, amount = 2, price = 5, http_code = 200\<rparr>]"

section \<open>Dictionaries and the sums of the summary\<close>

lemma dd_get_update:
  "dd_get dflt (AList.update k v d) k' = (if k' = k then v else dd_get dflt d k')"
  by (simp add: dd_get_def update_conv')

lemma dd_get_Nil: "dd_get dflt [] k = dflt"
  by (simp add: dd_get_def)

lemma dd_get_foldl_add:
  "dd_get 0 (foldl (\<lambda>d ev. dd_add (key ev) (val ev) d) d evs) k =
     dd_get 0 d k + sum_list (map val (filter (\<lambda>ev. key ev = k) evs))"
  by (induction evs arbitrary: d) (auto simp: dd_add_def dd_get_update)

lemma keys_foldl_add:
  "fst ` set (foldl (\<lambda>d ev. dd_add (key ev) (val ev) d) d evs) = fst ` set d \<union> key ` set evs"
  by (induction evs arbitrary: d) (auto simp: dd_add_def dom_update)

lemma map_of_foldl_add_None:
  "map_of (foldl (\<lambda>d ev. dd_add (key ev) (val ev) d) d evs) k = None \<longleftrightarrow>
     map_of d k = None \<and> k \<notin> key ` set evs"
  by (induction evs arbitrary: d) (auto simp: dd_add_def update_conv')

lemma revenue_get:
  "dd_get 0 (revenue buyOffer) k =
     sum_list (map (\<lambda>ev. real_of_int (amount ev) * price ev)
       (filter (\<lambda>ev. merchant_id ev = k) buyOffer))"
  unfolding revenue_def by (simp add: dd_get_foldl_add dd_get_Nil)

lemma holding_cost_get:
  "dd_get 0 (holding_cost holding) k =
     sum_list (map cost (filter (\<lambda>ev. merchant_id ev = k) holding))"
  unfolding holding_cost_def by (simp add: dd_get_foldl_add dd_get_Nil)

lemma order_cost_get:
  "dd_get 0 (order_cost producer) k =
     sum_list (map billing_amount (filter (\<lambda>ev. merchant_id ev = k) producer))"
  unfolding order_cost_def by (simp add: dd_get_foldl_add dd_get_Nil)

lemma map_of_foldl_update:
  "map_of (foldl (\<lambda>d k. AList.update k (f k) d) d ks) k =
     (if k \<in> set ks then Some (f k) else map_of d k)"
  by (induction ks arbitrary: d) (auto simp: update_conv')

lemma profit_get:
  "map_of (profit merchant_id_mapping rv hc oc) k =
     (if k \<in> fst ` set merchant_id_mapping
      then Some (dd_get 0 rv k - dd_get 0 hc k - dd_get 0 oc k) else None)"
  unfolding profit_def by (simp add: map_of_foldl_update)

lemma for_each_Inr:
  "(\<And>x. x \<in> set xs \<Longrightarrow> f x = Inr (g x)) \<Longrightarrow> for_each f xs = Inr (map g xs)"
  by (induction xs) auto

lemma set_table_order: "set (table_order merchant_id_mapping) = fst ` set merchant_id_mapping"
  by (simp add: table_order_def)

lemma length_table_order: "length (table_order merchant_id_mapping) = length merchant_id_mapping"
  by (simp add: table_order_def)

lemma table_row_known:
  assumes "k \<in> fst ` set merchant_id_mapping"
  shows "table_row merchant_id_mapping (revenue buyOffer) (holding_cost holding)
           (order_cost producer)
           (profit merchant_id_mapping (revenue buyOffer) (holding_cost holding)
              (order_cost producer)) k =
         Inr (summary_row merchant_id_mapping buyOffer holding producer k)"
proof -
  from assms obtain n where n: "map_of merchant_id_mapping k = Some n"
    by (metis domD dom_map_of_conv_image_fst)
  show ?thesis
    using assms n by (simp add: table_row_def dict_get_def profit_get summary_row_def dd_get_def)
qed

lemma analyze_kafka_dump_rows:
  "analyze_kafka_dump merchant_id_mapping buyOffer holding producer =
     Inr (map (summary_row merchant_id_mapping buyOffer holding producer)
            (table_order merchant_id_mapping))"
  unfolding analyze_kafka_dump_def Let_def
  by (rule for_each_Inr) (simp add: set_table_order table_row_known)


section \<open>The loop computes the interleaving\<close>

lemma merge_body_in_loop:
  assumes "sale_index st < length sales" "order_index st < length orders"
  shows "merge_body sales orders st =
     (if timestamp (orders ! order_index st) \<le> timestamp (sales ! sale_index st)
      then Inr ((Order_first, order_delta (orders ! order_index st)),
                take_order (orders ! order_index st) st)
      else Inr ((Sale_first, sale_delta (sales ! sale_index st)),
                take_sale (sales ! sale_index st) st))"
  using assms by (simp add: merge_body_def list_index_def)

lemma merge_loop_steps:
  "\<exists>st'. merge_loop sales orders st =
      Inr (interleave (drop (order_index st) orders) (drop (sale_index st) sales), st')
    \<and> inventory_progressions st' =
        foldl (\<lambda>ip step. record_delta (snd step) ip) (inventory_progressions st)
          (interleave (drop (order_index st) orders) (drop (sale_index st) sales))"
proof (induction sales orders st rule: merge_loop.induct)
  case (1 sales orders st)
  show ?case
  proof (cases "sale_index st < length sales \<and> order_index st < length orders")
    case False
    then have "drop (order_index st) orders = [] \<or> drop (sale_index st) sales = []"
      by auto
    then have "interleave (drop (order_index st) orders) (drop (sale_index st) sales) = []"
      by (cases "drop (order_index st) orders") auto
    with False show ?thesis by (subst merge_loop.simps) auto
  next
    case True
    let ?o = "orders ! order_index st" and ?s = "sales ! sale_index st"
    from True have dro: "drop (order_index st) orders = ?o # drop (Suc (order_index st)) orders"
      and drs: "drop (sale_index st) sales = ?s # drop (Suc (sale_index st)) sales"
      by (simp_all add: Cons_nth_drop_Suc)
    show ?thesis
    proof (cases "timestamp ?o \<le> timestamp ?s")
      case le: True
      with True have body: "merge_body sales orders st =
          Inr ((Order_first, order_delta ?o), take_order ?o st)"
        by (simp add: merge_body_in_loop)
      from "1.IH"[OF True body refl] obtain st' where
        st': "merge_loop sales orders (take_order ?o st) =
           Inr (interleave (drop (Suc (order_index st)) orders) (drop (sale_index st) sales), st')"
          "inventory_progressions st' =
            foldl (\<lambda>ip step. record_delta (snd step) ip)
              (record_delta (order_delta ?o) (inventory_progressions st))
              (interleave (drop (Suc (order_index st)) orders) (drop (sale_index st) sales))"
        by (auto simp: take_order_def)
      have "merge_loop sales orders st =
          Inr ((Order_first, order_delta ?o) #
               interleave (drop (Suc (order_index st)) orders) (drop (sale_index st) sales), st')"
        using True body st'(1) by (subst merge_loop.simps) simp
      moreover have "interleave (drop (order_index st) orders) (drop (sale_index st) sales) =
          (Order_first, order_delta ?o) #
               interleave (drop (Suc (order_index st)) orders) (drop (sale_index st) sales)"
        using le by (subst dro, subst drs) (simp add: drs)
      ultimately show ?thesis using st'(2) by simp
    next
      case gt: False
      with True have body: "merge_body sales orders st =
          Inr ((Sale_first, sale_delta ?s), take_sale ?s st)"
        by (simp add: merge_body_in_loop)
      from "1.IH"[OF True body refl] obtain st' where
        st': "merge_loop sales orders (take_sale ?s st) =
           Inr (interleave (drop (order_index st) orders) (drop (Suc (sale_index st)) sales), st')"
          "inventory_progressions st' =
            foldl (\<lambda>ip step. record_delta (snd step) ip)
              (record_delta (sale_delta ?s) (inventory_progressions st))
              (interleave (drop (order_index st) orders) (drop (Suc (sale_index st)) sales))"
        by (auto simp: take_sale_def)
      have "merge_loop sales orders st =
          Inr ((Sale_first, sale_delta ?s) #
               interleave (drop (order_index st) orders) (drop (Suc (sale_index st)) sales), st')"
        using True body st'(1) by (subst merge_loop.simps) simp
      moreover have "interleave (drop (order_index st) orders) (drop (sale_index st) sales) =
          (Sale_first, sale_delta ?s) #
               interleave (drop (order_index st) orders) (drop (Suc (sale_index st)) sales)"
        using gt by (subst drs, subst dro) (simp add: dro)
      ultimately show ?thesis using st'(2) by simp
    qed
  qed
qed

lemmas merge_eval =
  merge_loop.simps merge_body_def list_index_def take_order_def take_sale_def
  record_delta_def dd_append_def dd_get_def order_delta_def sale_delta_def

lemma merge_loop_interleave:
  "merge_loop sales orders st = Inr (steps, st') \<Longrightarrow>
     steps = interleave (drop (order_index st) orders) (drop (sale_index st) sales)"
  using merge_loop_steps [of sales orders st] by auto

lemma merge_loop_total: "\<exists>steps st'. merge_loop sales orders st = Inr (steps, st')"
  using merge_loop_steps [of sales orders st] by blast


section \<open>Properties of the interleaving\<close>

lemma interleave_branches:
  "step \<in> set (interleave orders sales) \<Longrightarrow> fst step = Order_first \<or> fst step = Sale_first"
  by (induction orders sales rule: interleave.induct) (auto split: if_splits)

lemma interleave_order_origin:
  "(Order_first, d) \<in> set (interleave orders sales) \<Longrightarrow> d \<in> order_delta ` set orders"
  by (induction orders sales rule: interleave.induct) (auto split: if_splits)

lemma interleave_sale_origin:
  "(Sale_first, d) \<in> set (interleave orders sales) \<Longrightarrow> d \<in> sale_delta ` set sales"
  by (induction orders sales rule: interleave.induct) (auto split: if_splits)

lemma interleave_timestamps:
  "step \<in> set (interleave orders sales) \<Longrightarrow>
     fst (snd (snd step)) \<in> timestamp ` set orders \<union> timestamp ` set sales"
  by (induction orders sales rule: interleave.induct)
     (auto split: if_splits simp: order_delta_def sale_delta_def)

lemma interleave_sorted:
  "sorted (map timestamp orders) \<Longrightarrow> sorted (map timestamp sales) \<Longrightarrow>
     sorted (map (\<lambda>step. fst (snd (snd step))) (interleave orders sales))"
proof (induction orders sales rule: interleave.induct)
  case (1 order orders sale sales)
  from "1.prems" have so: "sorted (map timestamp orders)" and ss: "sorted (map timestamp sales)"
    and lo: "\<forall>x\<in>set orders. timestamp order \<le> timestamp x"
    and ls: "\<forall>x\<in>set sales. timestamp sale \<le> timestamp x"
    by simp_all
  show ?case
  proof (cases "timestamp order \<le> timestamp sale")
    case True
    have eq: "interleave (order # orders) (sale # sales) =
        (Order_first, order_delta order) # interleave orders (sale # sales)"
      using True by simp
    have lb: "timestamp order \<le> fst (snd (snd step))"
      if "step \<in> set (interleave orders (sale # sales))" for step
      using interleave_timestamps [OF that] lo ls True by auto
    from "1.IH"(1) [OF True so "1.prems"(2)] lb show ?thesis
      unfolding eq by (simp add: order_delta_def)
  next
    case False
    have eq: "interleave (order # orders) (sale # sales) =
        (Sale_first, sale_delta sale) # interleave (order # orders) sales"
      using False by simp
    have lb: "timestamp sale \<le> fst (snd (snd step))"
      if "step \<in> set (interleave (order # orders) sales)" for step
      using interleave_timestamps [OF that] lo ls False by auto
    from "1.IH"(2) [OF False "1.prems"(1) ss] lb show ?thesis
      unfolding eq by (simp add: sale_delta_def)
  qed
qed simp_all

lemma interleave_sale_then_order:
  "sorted (map timestamp orders) \<Longrightarrow> i < j \<Longrightarrow> j < length (interleave orders sales) \<Longrightarrow>
   fst (interleave orders sales ! i) = Sale_first \<Longrightarrow>
   fst (interleave orders sales ! j) = Order_first \<Longrightarrow>
   fst (snd (snd (interleave orders sales ! i))) < fst (snd (snd (interleave orders sales ! j)))"
proof (induction orders sales arbitrary: i j rule: interleave.induct)
  case (1 order orders sale sales)
  show ?case
  proof (cases "timestamp order \<le> timestamp sale")
    case True
    with "1.prems" have "i \<noteq> 0" by (cases i) auto
    then obtain i' j' where ij: "i = Suc i'" "j = Suc j'"
      using "1.prems"(2) by (cases i; cases j) auto
    from "1.prems" have "sorted (map timestamp orders)" by simp
    from "1.IH"(1) [OF True this, of i' j'] "1.prems" True ij
    show ?thesis by simp
  next
    case False
    from "1.prems"(2) obtain j' where j: "j = Suc j'" by (cases j) auto
    show ?thesis
    proof (cases i)
      case 0
      let ?rest = "interleave (order # orders) sales"
      from "1.prems" False j have j': "j' < length ?rest" "fst (?rest ! j') = Order_first"
        by simp_all
      then have "(Order_first, snd (?rest ! j')) \<in> set ?rest"
        by (metis nth_mem prod.collapse)
      then obtain o' where o': "o' \<in> set (order # orders)" "snd (?rest ! j') = order_delta o'"
        using interleave_order_origin by blast
      with "1.prems"(1) have "timestamp order \<le> timestamp o'" by auto
      with o' False 0 j show ?thesis by (simp add: sale_delta_def order_delta_def)
    next
      case (Suc i')
      from "1.IH"(2) [OF False "1.prems"(1), of i' j'] "1.prems" False j Suc
      show ?thesis by simp
    qed
  qed
qed simp_all

lemma merge_loop_stops:
  "merge_loop sales orders st = Inr (steps, st') \<Longrightarrow>
     length sales \<le> sale_index st' \<or> length orders \<le> order_index st'"
proof (induction sales orders st arbitrary: steps st' rule: merge_loop.induct)
  case (1 sales orders st)
  show ?case
  proof (cases "sale_index st < length sales \<and> order_index st < length orders")
    case False
    with "1.prems" have "st' = st" by (subst (asm) merge_loop.simps) auto
    with False show ?thesis by auto
  next
    case True
    with "1.prems" obtain step st1 steps1 where
      b: "merge_body sales orders st = Inr (step, st1)"
      and l: "merge_loop sales orders st1 = Inr (steps1, st')"
      by (subst (asm) merge_loop.simps) (auto split: sum.splits prod.splits)
    from "1.IH" [OF True b refl l] show ?thesis .
  qed
qed

section \<open>Partitions, running totals and converted timestamps\<close>

lemma dd_get_record_delta:
  "dd_get [] (record_delta d ip) m =
     (if fst d = m then dd_get [] ip m @ [snd d] else dd_get [] ip m)"
  by (auto simp: record_delta_def dd_append_def dd_get_update)

lemma partition_of_Nil: "partition_of m [] = []"
  by (simp add: partition_of_def)

lemma partition_of_Cons:
  "partition_of m (step # steps) =
     (if fst (snd step) = m then snd (snd step) # partition_of m steps
      else partition_of m steps)"
  by (simp add: partition_of_def)

lemma dd_get_record_deltas:
  "dd_get [] (foldl (\<lambda>ip step. record_delta (snd step) ip) ip0 steps) m =
     dd_get [] ip0 m @ partition_of m steps"
  by (induction steps arbitrary: ip0)
     (simp_all add: partition_of_Nil partition_of_Cons dd_get_record_delta)

lemma keys_record_deltas:
  "fst ` set (foldl (\<lambda>ip step. record_delta (snd step) ip) ip0 steps) =
     fst ` set ip0 \<union> (\<lambda>step. fst (snd step)) ` set steps"
  by (induction steps arbitrary: ip0)
     (auto simp: record_delta_def dd_append_def dom_update)

lemma distinct_record_deltas:
  "distinct (map fst ip0) \<Longrightarrow>
   distinct (map fst (foldl (\<lambda>ip step. record_delta (snd step) ip) ip0 steps))"
  by (induction steps arbitrary: ip0)
     (simp_all add: record_delta_def dd_append_def distinct_update)

lemma partition_of_nonempty:
  "partition_of m steps \<noteq> [] \<longleftrightarrow> m \<in> (\<lambda>step. fst (snd step)) ` set steps"
  by (induction steps) (auto simp: partition_of_Nil partition_of_Cons)

lemma length_accumulate_from: "length (accumulate_from a xs) = Suc (length xs)"
  by (induction xs arbitrary: a) simp_all

lemma nth_accumulate_from:
  "k \<le> length xs \<Longrightarrow> accumulate_from a xs ! k = a + sum_list (take k xs)"
proof (induction xs arbitrary: a k)
  case Nil
  then show ?case by simp
next
  case (Cons x xs)
  show ?case
  proof (cases k)
    case 0
    then show ?thesis by simp
  next
    case (Suc k')
    with Cons.prems have "k' \<le> length xs" by simp
    from Cons.IH [OF this, of "a + x"] Suc show ?thesis by simp
  qed
qed

lemma length_accumulate: "length (accumulate xs) = length xs"
  by (cases xs) (simp_all add: length_accumulate_from)

lemma nth_accumulate:
  "k < length xs \<Longrightarrow> accumulate xs ! k = sum_list (take (Suc k) xs)"
  by (cases xs) (simp_all add: nth_accumulate_from)

lemma for_each_nth:
  "for_each f xs = Inr ys \<Longrightarrow>
     length ys = length xs \<and> (\<forall>n<length xs. f (xs ! n) = Inr (ys ! n))"
proof (induction xs arbitrary: ys)
  case Nil
  then show ?case by simp
next
  case (Cons x xs)
  from Cons.prems obtain y ys' where y: "f x = Inr y" and ys': "for_each f xs = Inr ys'"
    and ys: "ys = y # ys'"
    by (auto split: sum.splits)
  from Cons.IH [OF ys'] y ys show ?case
    by (auto simp: nth_Cons split: nat.splits)
qed

lemma convert_timestamps_cases:
  "convert_timestamps strptime events =
     (if \<forall>ev\<in>set events. strptime (timestamp ev) \<noteq> None
      then Inr (map (\<lambda>ev. \<lparr>merchant_id = merchant_id ev,
                            timestamp = the (strptime (timestamp ev)),
                            amount = amount ev, \<dots> = stock_event.more ev\<rparr>) events)
      else Inl ValueError)"
  unfolding convert_timestamps_def
proof (induction events)
  case Nil
  show ?case by simp
next
  case (Cons ev events)
  show ?case
  proof (cases "strptime (timestamp ev)")
    case None
    then show ?thesis by (simp add: convert_timestamp_def)
  next
    case (Some t)
    then show ?thesis using Cons.IH by (simp add: convert_timestamp_def)
  qed
qed

lemma sorted_map_Some: "sorted (map Some xs) \<longleftrightarrow> sorted xs"
  by (induction xs) auto

lemma convert_timestamps_sorted:
  assumes "convert_timestamps strptime events = Inr events'"
    and "sorted (map (\<lambda>ev. strptime (timestamp ev)) events)"
  shows "sorted (map timestamp events')"
proof -
  from assms(1) have all: "\<forall>ev\<in>set events. strptime (timestamp ev) \<noteq> None"
    and ev': "events' = map (\<lambda>ev. \<lparr>merchant_id = merchant_id ev,
                            timestamp = the (strptime (timestamp ev)),
                            amount = amount ev, \<dots> = stock_event.more ev\<rparr>) events"
    by (simp_all add: convert_timestamps_cases split: if_splits)
  from all have "map (\<lambda>ev. strptime (timestamp ev)) events = map Some (map timestamp events')"
    unfolding ev' by (induction events) auto
  with assms(2) have "sorted (map Some (map timestamp events'))" by (simp only:)
  then show ?thesis by (simp only: sorted_map_Some)
qed
lemma merged_inventory_cases:
  "merged_inventory strptime buyOffer producer =
     (if (\<forall>sale\<in>set buyOffer. http_code sale = 200 \<longrightarrow> strptime (timestamp sale) \<noteq> None) \<and>
         (\<forall>order\<in>set producer. strptime (timestamp order) \<noteq> None)
      then merge_loop
             (map (\<lambda>ev. \<lparr>merchant_id = merchant_id ev,
                            timestamp = the (strptime (timestamp ev)),
                            amount = amount ev, \<dots> = stock_event.more ev\<rparr>)
                (filter (\<lambda>sale. http_code sale = 200) buyOffer))
             (map (\<lambda>ev. \<lparr>merchant_id = merchant_id ev,
                            timestamp = the (strptime (timestamp ev)),
                            amount = amount ev, \<dots> = stock_event.more ev\<rparr>) producer)
             initial_state
      else Inl ValueError)"
  by (auto simp: merged_inventory_def convert_timestamps_cases)

lemma converted_sale_delta:
  "sale_delta \<lparr>merchant_id = merchant_id ev, timestamp = t, amount = amount ev,
               \<dots> = stock_event.more ev\<rparr> = (merchant_id ev, t, - amount ev)"
  by (simp add: sale_delta_def)

lemma converted_order_delta:
  "order_delta \<lparr>merchant_id = merchant_id ev, timestamp = t, amount = amount ev,
               \<dots> = stock_event.more ev\<rparr> = (merchant_id ev, t, amount ev)"
  by (simp add: order_delta_def)

lemma sorted_partition_dates:
  assumes "sorted (map (\<lambda>step. fst (snd (snd step))) steps)"
  shows "sorted (map fst (partition_of m steps))"
proof -
  have "map fst (partition_of m steps) =
      map (\<lambda>d. fst (snd d)) (filter (\<lambda>d. fst d = m) (map snd steps))"
    by (simp add: partition_of_def)
  moreover have "sorted (map (\<lambda>d. fst (snd d)) (map snd steps))"
    using assms by (simp add: comp_def)
  then have "sorted (map (\<lambda>d. fst (snd d)) (filter (\<lambda>d. fst d = m) (map snd steps)))"
    by (rule sorted_filter)
  ultimately show ?thesis by simp
qed

lemma series_of_Inr:
  assumes "series_of merchant_id_mapping ip m = Inr s"
  shows "dd_get [] ip m \<noteq> [] \<and> dict_get merchant_id_mapping m = Inr (label s) \<and>
         dates s = map fst (dd_get [] ip m) \<and>
         inventory_levels s = accumulate (map snd (dd_get [] ip m))"
  using assms
  by (auto simp: series_of_def unzip_def split: if_splits sum.splits)

lemmas graph_eval =
  create_inventory_graph_def merged_inventory_def convert_timestamps_def
  convert_timestamp_def initial_state_def series_of_def unzip_def dict_get_def merge_eval


section \<open>Properties of the financial summary\<close>

text \<open>
  C4. For every merchant \<open>e\<close> of the mapping, the profit of its row is
  \<open>revenue[e] - holding_cost[e] - order_cost[e]\<close>, where \<open>revenue[e]\<close> is the sum of
  \<open>amount * price\<close> over the \<^verbatim>\<open>buyOffer\<close> events of \<open>e\<close>, \<open>holding_cost[e]\<close> the sum
  of the costs of its \<^verbatim>\<open>holding_cost\<close> events and \<open>order_cost[e]\<close> the sum of the billing
  amounts of its \<^verbatim>\<open>producer\<close> events. The profit dictionary is built from the three
  finished dictionaries, each the sum over its whole list of events.
\<close>

theorem profit_composition:
  assumes "map_of merchant_id_mapping e = Some name"
  shows "\<exists>rows.
     analyze_kafka_dump merchant_id_mapping buyOffer holding producer = Inr rows \<and>
     (name,
      sum_list (map (\<lambda>ev. real_of_int (amount ev) * price ev)
        (filter (\<lambda>ev. merchant_id ev = e) buyOffer)),
      sum_list (map cost (filter (\<lambda>ev. merchant_id ev = e) holding)),
      sum_list (map billing_amount (filter (\<lambda>ev. merchant_id ev = e) producer)),
      sum_list (map (\<lambda>ev. real_of_int (amount ev) * price ev)
        (filter (\<lambda>ev. merchant_id ev = e) buyOffer))
      - sum_list (map cost (filter (\<lambda>ev. merchant_id ev = e) holding))
      - sum_list (map billing_amount (filter (\<lambda>ev. merchant_id ev = e) producer)))
       \<in> set rows \<and>
     map_of (profit merchant_id_mapping (revenue buyOffer) (holding_cost holding)
               (order_cost producer)) e =
       Some (dd_get 0 (revenue buyOffer) e - dd_get 0 (holding_cost holding) e
             - dd_get 0 (order_cost producer) e) \<and>
     dd_get 0 (revenue buyOffer) e =
       sum_list (map (\<lambda>ev. real_of_int (amount ev) * price ev)
         (filter (\<lambda>ev. merchant_id ev = e) buyOffer)) \<and>
     dd_get 0 (holding_cost holding) e =
       sum_list (map cost (filter (\<lambda>ev. merchant_id ev = e) holding)) \<and>
     dd_get 0 (order_cost producer) e =
       sum_list (map billing_amount (filter (\<lambda>ev. merchant_id ev = e) producer))"
proof -
  from assms have key: "e \<in> fst ` set merchant_id_mapping"
    by (metis domI dom_map_of_conv_image_fst)
  then have "e \<in> set (table_order merchant_id_mapping)"
    by (simp add: set_table_order)
  then have "summary_row merchant_id_mapping buyOffer holding producer e
      \<in> set (map (summary_row merchant_id_mapping buyOffer holding producer)
               (table_order merchant_id_mapping))"
    by simp
  moreover have "summary_row merchant_id_mapping buyOffer holding producer e =
     (name,
      sum_list (map (\<lambda>ev. real_of_int (amount ev) * price ev)
        (filter (\<lambda>ev. merchant_id ev = e) buyOffer)),
      sum_list (map cost (filter (\<lambda>ev. merchant_id ev = e) holding)),
      sum_list (map billing_amount (filter (\<lambda>ev. merchant_id ev = e) producer)),
      sum_list (map (\<lambda>ev. real_of_int (amount ev) * price ev)
        (filter (\<lambda>ev. merchant_id ev = e) buyOffer))
      - sum_list (map cost (filter (\<lambda>ev. merchant_id ev = e) holding))
      - sum_list (map billing_amount (filter (\<lambda>ev. merchant_id ev = e) producer)))"
    using assms
    by (simp add: summary_row_def revenue_get holding_cost_get order_cost_get)
       (simp add: dd_get_def)
  ultimately show ?thesis
    using key
    by (simp add: analyze_kafka_dump_rows profit_get revenue_get holding_cost_get
          order_cost_get)
qed

theorem profit_composition_witness:
  "map_of example_mapping ''m1'' = Some ''Acme'' \<and>
   (\<exists>rows. analyze_kafka_dump example_mapping example_buyOffer example_holding
              example_producer = Inr rows \<and>
           (''Acme'', 10, 1, 3, 6) \<in> set rows)"
proof -
  have h: "map_of example_mapping ''m1'' = Some ''Acme''"
    by (simp add: example_mapping_def)
  from profit_composition [OF h, of example_buyOffer example_holding example_producer]
  obtain rows where
    rows: "analyze_kafka_dump example_mapping example_buyOffer example_holding
             example_producer = Inr rows"
    and row: "(''Acme'',
      sum_list (map (\<lambda>ev. real_of_int (amount ev) * price ev)
        (filter (\<lambda>ev. merchant_id ev = ''m1'') example_buyOffer)),
      sum_list (map cost (filter (\<lambda>ev. merchant_id ev = ''m1'') example_holding)),
      sum_list (map billing_amount (filter (\<lambda>ev. merchant_id ev = ''m1'') example_producer)),
      sum_list (map (\<lambda>ev. real_of_int (amount ev) * price ev)
        (filter (\<lambda>ev. merchant_id ev = ''m1'') example_buyOffer))
      - sum_list (map cost (filter (\<lambda>ev. merchant_id ev = ''m1'') example_holding))
      - sum_list (map billing_amount (filter (\<lambda>ev. merchant_id ev = ''m1'') example_producer)))
       \<in> set rows"
    by blast
  from row have "(''Acme'', 10, 1, 3, 6) \<in> set rows"
    by (simp add: example_buyOffer_def example_holding_def example_producer_def)
  with h rows show ?thesis by blast
qed

text \<open>
  C5. A merchant of the mapping that has no event in a category has no key in that
  category's dictionary, and the dictionary still reads as exactly zero for it (the
  default of \<^verbatim>\<open>defaultdict(float)\<close>, not a missing-key error); the table is written
  without an error and has the merchant's row, which is all zeros when the merchant has
  no event in any of the three categories.
\<close>

theorem absent_entity_zero:
  assumes "map_of merchant_id_mapping e = Some name"
  shows "(e \<notin> merchant_id ` set buyOffer \<longrightarrow>
            map_of (revenue buyOffer) e = None \<and> dd_get 0 (revenue buyOffer) e = 0) \<and>
         (e \<notin> merchant_id ` set holding \<longrightarrow>
            map_of (holding_cost holding) e = None \<and> dd_get 0 (holding_cost holding) e = 0) \<and>
         (e \<notin> merchant_id ` set producer \<longrightarrow>
            map_of (order_cost producer) e = None \<and> dd_get 0 (order_cost producer) e = 0) \<and>
         (\<exists>rows. analyze_kafka_dump merchant_id_mapping buyOffer holding producer = Inr rows \<and>
            (name, dd_get 0 (revenue buyOffer) e, dd_get 0 (holding_cost holding) e,
             dd_get 0 (order_cost producer) e,
             dd_get 0 (revenue buyOffer) e - dd_get 0 (holding_cost holding) e
               - dd_get 0 (order_cost producer) e) \<in> set rows \<and>
            (e \<notin> merchant_id ` set buyOffer \<and> e \<notin> merchant_id ` set holding \<and>
             e \<notin> merchant_id ` set producer \<longrightarrow> (name, 0, 0, 0, 0) \<in> set rows))"
proof -
  have rev0: "map_of (revenue buyOffer) e = None \<and> dd_get 0 (revenue buyOffer) e = 0"
    if "e \<notin> merchant_id ` set buyOffer"
  proof -
    have "map_of (revenue buyOffer) e = None"
      unfolding revenue_def using that by (simp add: map_of_foldl_add_None)
    then show ?thesis by (simp add: dd_get_def)
  qed
  have hold0: "map_of (holding_cost holding) e = None \<and> dd_get 0 (holding_cost holding) e = 0"
    if "e \<notin> merchant_id ` set holding"
  proof -
    have "map_of (holding_cost holding) e = None"
      unfolding holding_cost_def using that by (simp add: map_of_foldl_add_None)
    then show ?thesis by (simp add: dd_get_def)
  qed
  have ord0: "map_of (order_cost producer) e = None \<and> dd_get 0 (order_cost producer) e = 0"
    if "e \<notin> merchant_id ` set producer"
  proof -
    have "map_of (order_cost producer) e = None"
      unfolding order_cost_def using that by (simp add: map_of_foldl_add_None)
    then show ?thesis by (simp add: dd_get_def)
  qed
  let ?rows = "map (summary_row merchant_id_mapping buyOffer holding producer)
                 (table_order merchant_id_mapping)"
  from assms have "e \<in> fst ` set merchant_id_mapping"
    by (metis domI dom_map_of_conv_image_fst)
  then have "summary_row merchant_id_mapping buyOffer holding producer e \<in> set ?rows"
    by (simp add: set_table_order)
  moreover have "summary_row merchant_id_mapping buyOffer holding producer e =
      (name, dd_get 0 (revenue buyOffer) e, dd_get 0 (holding_cost holding) e,
       dd_get 0 (order_cost producer) e,
       dd_get 0 (revenue buyOffer) e - dd_get 0 (holding_cost holding) e
         - dd_get 0 (order_cost producer) e)"
    using assms by (simp add: summary_row_def) (simp add: dd_get_def)
  ultimately have row: "(name, dd_get 0 (revenue buyOffer) e, dd_get 0 (holding_cost holding) e,
       dd_get 0 (order_cost producer) e,
       dd_get 0 (revenue buyOffer) e - dd_get 0 (holding_cost holding) e
         - dd_get 0 (order_cost producer) e) \<in> set ?rows"
    by simp
  have row0: "(name, 0, 0, 0, 0) \<in> set ?rows"
    if "e \<notin> merchant_id ` set buyOffer \<and> e \<notin> merchant_id ` set holding \<and>
        e \<notin> merchant_id ` set producer"
    using row rev0 hold0 ord0 that by simp
  have ex: "\<exists>rows. analyze_kafka_dump merchant_id_mapping buyOffer holding producer = Inr rows \<and>
            (name, dd_get 0 (revenue buyOffer) e, dd_get 0 (holding_cost holding) e,
             dd_get 0 (order_cost producer) e,
             dd_get 0 (revenue buyOffer) e - dd_get 0 (holding_cost holding) e
               - dd_get 0 (order_cost producer) e) \<in> set rows \<and>
            (e \<notin> merchant_id ` set buyOffer \<and> e \<notin> merchant_id ` set holding \<and>
             e \<notin> merchant_id ` set producer \<longrightarrow> (name, 0, 0, 0, 0) \<in> set rows)"
  proof (intro exI conjI impI)
    show "analyze_kafka_dump merchant_id_mapping buyOffer holding producer = Inr ?rows"
      by (rule analyze_kafka_dump_rows)
  qed (use row row0 in blast)+
  show ?thesis
    by (intro conjI) (rule impI, rule rev0, assumption, rule impI, rule hold0, assumption,
      rule impI, rule ord0, assumption, rule ex)
qed

theorem absent_entity_zero_witness:
  "map_of example_mapping ''m2'' = Some ''Bolt'' \<and>
   ''m2'' \<notin> merchant_id ` set (take 1 example_buyOffer) \<and>
   ''m2'' \<notin> merchant_id ` set example_holding \<and>
   ''m2'' \<notin> merchant_id ` set example_producer \<and>
   dd_get 0 (revenue (take 1 example_buyOffer)) ''m2'' = 0 \<and>
   dd_get 0 (holding_cost example_holding) ''m2'' = 0 \<and>
   dd_get 0 (order_cost example_producer) ''m2'' = 0 \<and>
   (\<exists>rows. analyze_kafka_dump example_mapping (take 1 example_buyOffer) example_holding
              example_producer = Inr rows \<and>
           (''Bolt'', 0, 0, 0, 0) \<in> set rows)"
proof -
  have h: "map_of example_mapping ''m2'' = Some ''Bolt''"
    by (simp add: example_mapping_def)
  have a: "''m2'' \<notin> merchant_id ` set (take 1 example_buyOffer)"
    "''m2'' \<notin> merchant_id ` set example_holding"
    "''m2'' \<notin> merchant_id ` set example_producer"
    by (simp_all add: example_buyOffer_def example_holding_def example_producer_def)
  note t = absent_entity_zero [OF h, of "take 1 example_buyOffer" example_holding
      example_producer]
  from t a have z: "dd_get 0 (revenue (take 1 example_buyOffer)) ''m2'' = 0"
    "dd_get 0 (holding_cost example_holding) ''m2'' = 0"
    "dd_get 0 (order_cost example_producer) ''m2'' = 0"
    by simp_all
  from t a have "\<exists>rows. analyze_kafka_dump example_mapping (take 1 example_buyOffer)
      example_holding example_producer = Inr rows \<and> (''Bolt'', 0, 0, 0, 0) \<in> set rows"
    by (elim conjE exE) (intro exI conjI, assumption, simp)
  with h a z show ?thesis by simp
qed

text \<open>
  C8. The events of a merchant that the mapping does not have are still summed under
  that identifier, which becomes a key of the dictionary; the table is written without
  an error, from the keys of the mapping only, so the identifier is not among the keys
  the rows are written for, and the table is the one the dump gives without the events
  of that merchant.
\<close>

theorem unknown_entity_no_row:
  assumes "e \<notin> fst ` set merchant_id_mapping"
  shows "dd_get 0 (revenue buyOffer) e =
           sum_list (map (\<lambda>ev. real_of_int (amount ev) * price ev)
             (filter (\<lambda>ev. merchant_id ev = e) buyOffer)) \<and>
         dd_get 0 (holding_cost holding) e =
           sum_list (map cost (filter (\<lambda>ev. merchant_id ev = e) holding)) \<and>
         dd_get 0 (order_cost producer) e =
           sum_list (map billing_amount (filter (\<lambda>ev. merchant_id ev = e) producer)) \<and>
         (e \<in> merchant_id ` set buyOffer \<longrightarrow> e \<in> fst ` set (revenue buyOffer)) \<and>
         (e \<in> merchant_id ` set holding \<longrightarrow> e \<in> fst ` set (holding_cost holding)) \<and>
         (e \<in> merchant_id ` set producer \<longrightarrow> e \<in> fst ` set (order_cost producer)) \<and>
         e \<notin> set (table_order merchant_id_mapping) \<and>
         analyze_kafka_dump merchant_id_mapping buyOffer holding producer =
           Inr (map (summary_row merchant_id_mapping buyOffer holding producer)
                  (table_order merchant_id_mapping)) \<and>
         analyze_kafka_dump merchant_id_mapping buyOffer holding producer =
           analyze_kafka_dump merchant_id_mapping
             (filter (\<lambda>ev. merchant_id ev \<noteq> e) buyOffer)
             (filter (\<lambda>ev. merchant_id ev \<noteq> e) holding)
             (filter (\<lambda>ev. merchant_id ev \<noteq> e) producer)"
proof -
  have keys: "fst ` set (revenue buyOffer) = merchant_id ` set buyOffer"
    "fst ` set (holding_cost holding) = merchant_id ` set holding"
    "fst ` set (order_cost producer) = merchant_id ` set producer"
    unfolding revenue_def holding_cost_def order_cost_def
    by (simp_all add: keys_foldl_add)
  have flt: "(\<lambda>x. f x \<noteq> e \<and> f x = k) = (\<lambda>x. f x = k)"
    if "k \<noteq> e" for k and f :: "'q \<Rightarrow> string"
    using that by auto
  have "\<And>k. k \<in> set (table_order merchant_id_mapping) \<Longrightarrow>
      summary_row merchant_id_mapping buyOffer holding producer k =
      summary_row merchant_id_mapping (filter (\<lambda>ev. merchant_id ev \<noteq> e) buyOffer)
             (filter (\<lambda>ev. merchant_id ev \<noteq> e) holding)
             (filter (\<lambda>ev. merchant_id ev \<noteq> e) producer) k"
  proof -
    fix k assume "k \<in> set (table_order merchant_id_mapping)"
    with assms have "k \<noteq> e" by (auto simp: set_table_order)
    then show "summary_row merchant_id_mapping buyOffer holding producer k =
      summary_row merchant_id_mapping (filter (\<lambda>ev. merchant_id ev \<noteq> e) buyOffer)
             (filter (\<lambda>ev. merchant_id ev \<noteq> e) holding)
             (filter (\<lambda>ev. merchant_id ev \<noteq> e) producer) k"
      by (simp add: summary_row_def revenue_get holding_cost_get order_cost_get flt)
  qed
  then have "map (summary_row merchant_id_mapping buyOffer holding producer)
                  (table_order merchant_id_mapping) =
      map (summary_row merchant_id_mapping (filter (\<lambda>ev. merchant_id ev \<noteq> e) buyOffer)
             (filter (\<lambda>ev. merchant_id ev \<noteq> e) holding)
             (filter (\<lambda>ev. merchant_id ev \<noteq> e) producer)) (table_order merchant_id_mapping)"
    by simp
  then show ?thesis
    using assms keys
    by (simp add: analyze_kafka_dump_rows revenue_get holding_cost_get order_cost_get
          set_table_order)
qed

theorem unknown_entity_no_row_witness:
  "''m3'' \<notin> fst ` set example_mapping \<and>
   ''m3'' \<in> merchant_id ` set (example_buyOffer @ stranger_buyOffer) \<and>
   dd_get 0 (revenue (example_buyOffer @ stranger_buyOffer)) ''m3'' = 10 \<and>
   ''m3'' \<in> fst ` set (revenue (example_buyOffer @ stranger_buyOffer)) \<and>
   ''m3'' \<notin> set (table_order example_mapping) \<and>
   analyze_kafka_dump example_mapping (example_buyOffer @ stranger_buyOffer) example_holding
     example_producer =
   analyze_kafka_dump example_mapping example_buyOffer example_holding example_producer"
proof -
  have h: "''m3'' \<notin> fst ` set example_mapping"
    by (simp add: example_mapping_def)
  have a: "''m3'' \<in> merchant_id ` set (example_buyOffer @ stranger_buyOffer)"
    by (simp add: stranger_buyOffer_def)
  have f: "filter (\<lambda>ev. merchant_id ev \<noteq> ''m3'') (example_buyOffer @ stranger_buyOffer)
      = example_buyOffer"
    "filter (\<lambda>ev. merchant_id ev \<noteq> ''m3'') example_holding = example_holding"
    "filter (\<lambda>ev. merchant_id ev \<noteq> ''m3'') example_producer = example_producer"
    by (simp_all add: example_buyOffer_def stranger_buyOffer_def example_holding_def
          example_producer_def)
  have s: "sum_list (map (\<lambda>ev. real_of_int (amount ev) * price ev)
             (filter (\<lambda>ev. merchant_id ev = ''m3'') (example_buyOffer @ stranger_buyOffer))) = 10"
    by (simp add: example_buyOffer_def stranger_buyOffer_def)
  note t = unknown_entity_no_row [OF h, of "example_buyOffer @ stranger_buyOffer"
      example_holding example_producer, unfolded f s]
  from t a have k: "''m3'' \<in> fst ` set (revenue (example_buyOffer @ stranger_buyOffer))"
    by simp
  from t have r: "dd_get 0 (revenue (example_buyOffer @ stranger_buyOffer)) ''m3'' = 10"
    and o: "''m3'' \<notin> set (table_order example_mapping)"
    by simp_all
  from t have i: "analyze_kafka_dump example_mapping (example_buyOffer @ stranger_buyOffer)
      example_holding example_producer =
    analyze_kafka_dump example_mapping example_buyOffer example_holding example_producer"
    by (elim conjE)
  show ?thesis
    by (intro conjI) (rule h, rule a, rule r, rule k, rule o, rule i)
qed

section \<open>Properties of the merge loop\<close>

text \<open>
  C10. The loop ends without an error, and no iteration takes the branch of line 70
  (\<open>sale_index >= len(sales)\<close>) or the branch of line 74
  (\<open>order_index >= len(orders)\<close>): whenever the loop condition holds, the body takes one
  of the two comparing branches. When the loop ends, one of the two lists is used up,
  whatever is left of the other.
\<close>

theorem exhausted_branches_unreachable:
  "(\<exists>steps st'. merge_loop sales orders st = Inr (steps, st') \<and>
      (\<forall>step\<in>set steps. fst step \<noteq> Sales_exhausted \<and> fst step \<noteq> Orders_exhausted) \<and>
      (length sales \<le> sale_index st' \<or> length orders \<le> order_index st')) \<and>
   (sale_index st < length sales \<and> order_index st < length orders \<longrightarrow>
      (\<exists>step st1. merge_body sales orders st = Inr (step, st1) \<and>
         fst step \<noteq> Sales_exhausted \<and> fst step \<noteq> Orders_exhausted))"
proof (intro conjI impI)
  from merge_loop_total obtain steps st' where
    run: "merge_loop sales orders st = Inr (steps, st')" by blast
  have "fst step \<noteq> Sales_exhausted \<and> fst step \<noteq> Orders_exhausted"
    if "step \<in> set steps" for step
    using interleave_branches [of step] that merge_loop_interleave [OF run] by auto
  with run merge_loop_stops [OF run]
  show "\<exists>steps st'. merge_loop sales orders st = Inr (steps, st') \<and>
      (\<forall>step\<in>set steps. fst step \<noteq> Sales_exhausted \<and> fst step \<noteq> Orders_exhausted) \<and>
      (length sales \<le> sale_index st' \<or> length orders \<le> order_index st')"
    by blast
next
  assume "sale_index st < length sales \<and> order_index st < length orders"
  then show "\<exists>step st1. merge_body sales orders st = Inr (step, st1) \<and>
         fst step \<noteq> Sales_exhausted \<and> fst step \<noteq> Orders_exhausted"
    by (cases "timestamp (orders ! order_index st) \<le> timestamp (sales ! sale_index st)")
       (simp_all add: merge_body_in_loop)
qed

theorem exhausted_branches_unreachable_witness:
  "merge_loop example_sales example_orders initial_state =
     Inr ([(Order_first, ''m1'', 0, 5)],
          \<lparr>sale_index = 0, order_index = 1,
           inventory_progressions = [(''m1'', [(0, 5)])]\<rparr>) \<and>
   fst (Order_first, ''m1'', 0::nat, 5::int) \<noteq> Sales_exhausted \<and>
   fst (Order_first, ''m1'', 0::nat, 5::int) \<noteq> Orders_exhausted \<and>
   sale_index (initial_state :: nat merge_state) < length example_sales \<and>
   order_index (initial_state :: nat merge_state) < length example_orders \<and>
   (\<exists>step st1. merge_body example_sales example_orders initial_state = Inr (step, st1) \<and>
      fst step \<noteq> Sales_exhausted \<and> fst step \<noteq> Orders_exhausted)"
proof -
  have run: "merge_loop example_sales example_orders initial_state =
     Inr ([(Order_first, ''m1'', 0, 5)],
          \<lparr>sale_index = 0, order_index = 1,
           inventory_progressions = [(''m1'', [(0, 5)])]\<rparr>)"
    by (simp add: merge_eval example_sales_def example_orders_def initial_state_def)
  have c: "sale_index (initial_state :: nat merge_state) < length example_sales \<and>
      order_index (initial_state :: nat merge_state) < length example_orders"
    by (simp add: example_sales_def example_orders_def initial_state_def)
  note t = exhausted_branches_unreachable [of example_sales example_orders initial_state]
  from t c have b: "\<exists>step st1. merge_body example_sales example_orders initial_state = Inr (step, st1) \<and>
      fst step \<noteq> Sales_exhausted \<and> fst step \<noteq> Orders_exhausted"
    by (elim conjE) simp
  from t have "\<forall>step\<in>set [(Order_first, ''m1'', 0::nat, 5::int)].
      fst step \<noteq> Sales_exhausted \<and> fst step \<noteq> Orders_exhausted"
    unfolding run by simp
  then have "fst (Order_first, ''m1'', 0::nat, 5::int) \<noteq> Sales_exhausted"
    "fst (Order_first, ''m1'', 0::nat, 5::int) \<noteq> Orders_exhausted"
    by simp_all
  with run c b show ?thesis by (intro conjI) simp_all
qed

text \<open>
  C2. When the body runs and the next order and the next sale have equal timestamps,
  the body takes the order and leaves the sale where it is. In the merged sequence of
  a run over orders sorted by timestamp, an order and a sale with equal timestamps
  that are both in the sequence come in this order: the order first.
\<close>

theorem tie_break_order_first:
  "(sale_index st < length sales \<and> order_index st < length orders \<and>
    timestamp (orders ! order_index st) = timestamp (sales ! sale_index st) \<longrightarrow>
      merge_body sales orders st =
        Inr ((Order_first, order_delta (orders ! order_index st)),
             take_order (orders ! order_index st) st) \<and>
      sale_index (take_order (orders ! order_index st) st) = sale_index st \<and>
      order_index (take_order (orders ! order_index st) st) = order_index st + 1) \<and>
   (sorted (map timestamp orders) \<and> merge_loop sales orders st = Inr (steps, st') \<and>
    i < length steps \<and> j < length steps \<and>
    fst (steps ! i) = Sale_first \<and> fst (steps ! j) = Order_first \<and>
    fst (snd (snd (steps ! i))) = fst (snd (snd (steps ! j))) \<longrightarrow> j < i)"
proof (intro conjI impI)
  assume a: "sale_index st < length sales \<and> order_index st < length orders \<and>
    timestamp (orders ! order_index st) = timestamp (sales ! sale_index st)"
  then show "merge_body sales orders st =
        Inr ((Order_first, order_delta (orders ! order_index st)),
             take_order (orders ! order_index st) st)"
    by (simp add: merge_body_in_loop)
  show "sale_index (take_order (orders ! order_index st) st) = sale_index st"
    by (simp add: take_order_def)
  show "order_index (take_order (orders ! order_index st) st) = order_index st + 1"
    by (simp add: take_order_def)
next
  assume a: "sorted (map timestamp orders) \<and> merge_loop sales orders st = Inr (steps, st') \<and>
    i < length steps \<and> j < length steps \<and>
    fst (steps ! i) = Sale_first \<and> fst (steps ! j) = Order_first \<and>
    fst (snd (snd (steps ! i))) = fst (snd (snd (steps ! j)))"
  let ?os = "drop (order_index st) orders" and ?ss = "drop (sale_index st) sales"
  from a have steps: "steps = interleave ?os ?ss"
    using merge_loop_interleave by blast
  from a have so: "sorted (map timestamp ?os)"
    by (simp add: drop_map [symmetric])
  show "j < i"
  proof (rule ccontr)
    assume "\<not> j < i"
    moreover from a have "i \<noteq> j" by auto
    ultimately have "i < j" by simp
    from interleave_sale_then_order [OF so this, of ?ss] a
    show False unfolding steps by simp
  qed
qed

theorem tie_break_order_first_witness:
  "sale_index (initial_state :: nat merge_state) < length example_sales \<and>
   order_index (initial_state :: nat merge_state) < length tied_orders \<and>
   timestamp (tied_orders ! order_index (initial_state :: nat merge_state)) =
     timestamp (example_sales ! sale_index (initial_state :: nat merge_state)) \<and>
   merge_body example_sales tied_orders initial_state =
     Inr ((Order_first, ''m1'', 1, 5),
          \<lparr>sale_index = 0, order_index = 1,
           inventory_progressions = [(''m1'', [(1, 5)])]\<rparr>) \<and>
   sorted (map timestamp tied_orders) \<and>
   merge_loop example_sales tied_orders initial_state =
     Inr ([(Order_first, ''m1'', 1, 5), (Sale_first, ''m1'', 1, -2),
           (Sale_first, ''m2'', 2, -1)],
          \<lparr>sale_index = 2, order_index = 1,
           inventory_progressions = [(''m1'', [(1, 5), (1, -2)]), (''m2'', [(2, -1)])]\<rparr>) \<and>
   (0::nat) < 1"
proof -
  let ?steps = "[(Order_first, ''m1'', 1::nat, 5::int), (Sale_first, ''m1'', 1, -2),
           (Sale_first, ''m2'', 2, -1)]"
  let ?st' = "\<lparr>sale_index = 2, order_index = 1,
           inventory_progressions = [(''m1'', [(1::nat, 5::int), (1, -2)]), (''m2'', [(2, -1)])]\<rparr>"
  have run: "merge_loop example_sales tied_orders initial_state = Inr (?steps, ?st')"
    by (simp add: merge_eval example_sales_def tied_orders_def initial_state_def)
  have c: "sale_index (initial_state :: nat merge_state) < length example_sales"
    "order_index (initial_state :: nat merge_state) < length tied_orders"
    "timestamp (tied_orders ! order_index (initial_state :: nat merge_state)) =
     timestamp (example_sales ! sale_index (initial_state :: nat merge_state))"
    by (simp_all add: example_sales_def tied_orders_def initial_state_def)
  have so: "sorted (map timestamp tied_orders)"
    by (simp add: tied_orders_def)
  note t = tie_break_order_first [of initial_state example_sales tied_orders ?steps ?st' 1 0]
  from t c have "merge_body example_sales tied_orders initial_state =
        Inr ((Order_first, order_delta (tied_orders ! order_index (initial_state :: nat merge_state))),
             take_order (tied_orders ! order_index (initial_state :: nat merge_state)) initial_state)"
    by (elim conjE) simp
  then have b: "merge_body example_sales tied_orders initial_state =
     Inr ((Order_first, ''m1'', 1, 5),
          \<lparr>sale_index = 0, order_index = 1,
           inventory_progressions = [(''m1'', [(1, 5)])]\<rparr>)"
    by (simp add: merge_eval tied_orders_def initial_state_def)
  from t so run have lt: "(0::nat) < 1"
    by (elim conjE) simp
  from c b so run lt show ?thesis by (intro conjI)
qed

text \<open>
  C7. The loop returns a result for every pair of lists, sorted or not; it has no check
  of the order of its inputs. When both lists are sorted by timestamp, two deltas of
  the same merchant in the merged sequence have timestamps in the order of their
  positions.
\<close>

theorem merged_order_per_entity:
  "(\<exists>steps st'. merge_loop sales orders st = Inr (steps, st')) \<and>
   (sorted (map timestamp sales) \<and> sorted (map timestamp orders) \<and>
    merge_loop sales orders st = Inr (steps, st') \<and> i < j \<and> j < length steps \<and>
    fst (snd (steps ! i)) = fst (snd (steps ! j)) \<longrightarrow>
      fst (snd (snd (steps ! i))) \<le> fst (snd (snd (steps ! j))))"
proof (intro conjI impI)
  show "\<exists>steps st'. merge_loop sales orders st = Inr (steps, st')"
    by (rule merge_loop_total)
next
  assume a: "sorted (map timestamp sales) \<and> sorted (map timestamp orders) \<and>
    merge_loop sales orders st = Inr (steps, st') \<and> i < j \<and> j < length steps \<and>
    fst (snd (steps ! i)) = fst (snd (steps ! j))"
  let ?os = "drop (order_index st) orders" and ?ss = "drop (sale_index st) sales"
  from a have steps: "steps = interleave ?os ?ss"
    using merge_loop_interleave by blast
  from a have "sorted (map timestamp ?os)" "sorted (map timestamp ?ss)"
    by (simp_all add: drop_map [symmetric])
  then have "sorted (map (\<lambda>step. fst (snd (snd step))) steps)"
    unfolding steps by (rule interleave_sorted)
  from sorted_nth_mono [OF this, of i j] a
  show "fst (snd (snd (steps ! i))) \<le> fst (snd (snd (steps ! j)))"
    by simp
qed

theorem merged_order_per_entity_witness:
  "sorted (map timestamp example_sales) \<and> sorted (map timestamp tied_orders) \<and>
   merge_loop example_sales tied_orders initial_state =
     Inr ([(Order_first, ''m1'', 1, 5), (Sale_first, ''m1'', 1, -2),
           (Sale_first, ''m2'', 2, -1)],
          \<lparr>sale_index = 2, order_index = 1,
           inventory_progressions = [(''m1'', [(1, 5), (1, -2)]), (''m2'', [(2, -1)])]\<rparr>) \<and>
   (1::nat) \<le> 1 \<and>
   \<not> sorted (map timestamp unsorted_orders) \<and>
   merge_loop late_sales unsorted_orders initial_state =
     Inr ([(Order_first, ''m1'', 5, 7), (Order_first, ''m1'', 0, 5)],
          \<lparr>sale_index = 0, order_index = 2,
           inventory_progressions = [(''m1'', [(5, 7), (0, 5)])]\<rparr>)"
proof -
  let ?steps = "[(Order_first, ''m1'', 1::nat, 5::int), (Sale_first, ''m1'', 1, -2),
           (Sale_first, ''m2'', 2, -1)]"
  let ?st' = "\<lparr>sale_index = 2, order_index = 1,
           inventory_progressions = [(''m1'', [(1::nat, 5::int), (1, -2)]), (''m2'', [(2, -1)])]\<rparr>"
  have run: "merge_loop example_sales tied_orders initial_state = Inr (?steps, ?st')"
    by (simp add: merge_eval example_sales_def tied_orders_def initial_state_def)
  have so: "sorted (map timestamp example_sales)" "sorted (map timestamp tied_orders)"
    by (simp_all add: example_sales_def tied_orders_def)
  have un: "\<not> sorted (map timestamp unsorted_orders)"
    by (simp add: unsorted_orders_def)
  note u = merged_order_per_entity [of example_sales tied_orders initial_state ?steps ?st' 0 1]
  from u so run have le: "(1::nat) \<le> 1"
    by (elim conjE) simp
  have bad: "merge_loop late_sales unsorted_orders initial_state =
     Inr ([(Order_first, ''m1'', 5, 7), (Order_first, ''m1'', 0, 5)],
          \<lparr>sale_index = 0, order_index = 2,
           inventory_progressions = [(''m1'', [(5, 7), (0, 5)])]\<rparr>)"
    by (simp add: merge_eval late_sales_def unsorted_orders_def initial_state_def)
  from so run le un bad show ?thesis by (intro conjI)
qed

text \<open>
  C1. The merged sequence is not an interleaving of all the events: the loop of line 69
  runs only while both lists have events left, so the events that remain in one list
  when the other is used up are never put in. In the example dump the only order comes
  first and both sales are lost: the series of Acme has the order alone, and Bolt has
  no series.
\<close>

theorem merge_drops_remaining_events:
  "create_inventory_graph example_strptime example_mapping example_buyOffer example_producer =
     Inr [\<lparr>label = ''Acme'', dates = [0], inventory_levels = [5]\<rparr>]"
  by (simp add: graph_eval example_strptime_def example_mapping_def example_buyOffer_def
        example_producer_def)

section \<open>Properties of the whole reconstruction\<close>

text \<open>
  C9, as stated, fails: the sales are filtered by \<open>http_code\<close> in line 62 before their
  timestamps are converted in line 63, so the timestamp of a sale that did not succeed
  is never parsed and cannot abort the run.
\<close>

theorem rejected_sale_timestamp_not_parsed:
  "http_code rejected_sale \<noteq> 200 \<and>
   example_strptime (timestamp rejected_sale) = None \<and>
   create_inventory_graph example_strptime example_mapping (rejected_sale # example_buyOffer)
     restocked_producer =
     Inr [\<lparr>label = ''Acme'', dates = [0, 1], inventory_levels = [5, 3]\<rparr>,
          \<lparr>label = ''Bolt'', dates = [2], inventory_levels = [-1]\<rparr>]"
  by (simp add: graph_eval example_strptime_def example_mapping_def example_buyOffer_def
        restocked_producer_def rejected_sale_def)

text \<open>
  C9, amended. If the timestamp of a sale with \<open>http_code\<close> 200 or of an order does not
  parse, the reconstruction ends with \<^verbatim>\<open>ValueError\<close> and gives no series at all;
  otherwise the conversion and the merge return a result. The timestamp of a sale with
  another \<open>http_code\<close> is not looked at.
\<close>

theorem unparsed_timestamp_aborts:
  "((\<exists>sale\<in>set buyOffer. http_code sale = 200 \<and> strptime (timestamp sale) = None) \<or>
    (\<exists>order\<in>set producer. strptime (timestamp order) = None) \<longrightarrow>
      merged_inventory strptime buyOffer producer = Inl ValueError \<and>
      create_inventory_graph strptime merchant_id_mapping buyOffer producer = Inl ValueError) \<and>
   (\<not> ((\<exists>sale\<in>set buyOffer. http_code sale = 200 \<and> strptime (timestamp sale) = None) \<or>
        (\<exists>order\<in>set producer. strptime (timestamp order) = None)) \<longrightarrow>
      (\<exists>steps st. merged_inventory strptime buyOffer producer = Inr (steps, st)))"
proof (intro conjI impI)
  assume a: "(\<exists>sale\<in>set buyOffer. http_code sale = 200 \<and> strptime (timestamp sale) = None) \<or>
    (\<exists>order\<in>set producer. strptime (timestamp order) = None)"
  then show m: "merged_inventory strptime buyOffer producer = Inl ValueError"
    unfolding merged_inventory_cases by auto
  then show "create_inventory_graph strptime merchant_id_mapping buyOffer producer =
      Inl ValueError"
    by (simp add: create_inventory_graph_def)
next
  assume "\<not> ((\<exists>sale\<in>set buyOffer. http_code sale = 200 \<and> strptime (timestamp sale) = None) \<or>
        (\<exists>order\<in>set producer. strptime (timestamp order) = None))"
  then have "(\<forall>sale\<in>set buyOffer. http_code sale = 200 \<longrightarrow> strptime (timestamp sale) \<noteq> None) \<and>
         (\<forall>order\<in>set producer. strptime (timestamp order) \<noteq> None)"
    by simp
  then have "merged_inventory strptime buyOffer producer =
      merge_loop
             (map (\<lambda>ev. \<lparr>merchant_id = merchant_id ev,
                            timestamp = the (strptime (timestamp ev)),
                            amount = amount ev, \<dots> = stock_event.more ev\<rparr>)
                (filter (\<lambda>sale. http_code sale = 200) buyOffer))
             (map (\<lambda>ev. \<lparr>merchant_id = merchant_id ev,
                            timestamp = the (strptime (timestamp ev)),
                            amount = amount ev, \<dots> = stock_event.more ev\<rparr>) producer)
             initial_state"
    by (subst merged_inventory_cases) (rule if_P)
  then show "\<exists>steps st. merged_inventory strptime buyOffer producer = Inr (steps, st)"
    by (simp only: merge_loop_total)
qed

theorem unparsed_timestamp_aborts_witness:
  "(\<exists>sale\<in>set (unparsed_sale # example_buyOffer).
      http_code sale = 200 \<and> example_strptime (timestamp sale) = None) \<and>
   create_inventory_graph example_strptime example_mapping (unparsed_sale # example_buyOffer)
     restocked_producer = Inl ValueError \<and>
   \<not> ((\<exists>sale\<in>set (rejected_sale # example_buyOffer).
          http_code sale = 200 \<and> example_strptime (timestamp sale) = None) \<or>
       (\<exists>order\<in>set restocked_producer. example_strptime (timestamp order) = None)) \<and>
   (\<exists>steps st. merged_inventory example_strptime (rejected_sale # example_buyOffer)
      restocked_producer = Inr (steps, st))"
proof -
  have a: "\<exists>sale\<in>set (unparsed_sale # example_buyOffer).
      http_code sale = 200 \<and> example_strptime (timestamp sale) = None"
    by (simp add: unparsed_sale_def example_strptime_def)
  have b: "\<not> ((\<exists>sale\<in>set (rejected_sale # example_buyOffer).
          http_code sale = 200 \<and> example_strptime (timestamp sale) = None) \<or>
       (\<exists>order\<in>set restocked_producer. example_strptime (timestamp order) = None))"
    by (simp add: rejected_sale_def example_buyOffer_def restocked_producer_def
          example_strptime_def)
  from a unparsed_timestamp_aborts [of "unparsed_sale # example_buyOffer" example_strptime
      restocked_producer example_mapping]
  have c: "create_inventory_graph example_strptime example_mapping
      (unparsed_sale # example_buyOffer) restocked_producer = Inl ValueError"
    by (elim conjE) simp
  from b unparsed_timestamp_aborts [of "rejected_sale # example_buyOffer" example_strptime
      restocked_producer example_mapping]
  have d: "\<exists>steps st. merged_inventory example_strptime (rejected_sale # example_buyOffer)
      restocked_producer = Inr (steps, st)"
    by (elim conjE) simp
  from a c b d show ?thesis by (intro conjI)
qed

text \<open>
  C6. The revenue of a merchant is the sum over all its \<^verbatim>\<open>buyOffer\<close> events, whatever
  their \<open>http_code\<close>. The reconstruction gives the same result on the dump and on the
  dump without the sales whose \<open>http_code\<close> is not 200; all the orders are converted and
  given to the loop; every delta of the merged sequence taken from a sale comes from a
  sale with \<open>http_code\<close> 200, and every other delta comes from an order.
\<close>

theorem failed_purchases_only_in_revenue:
  "dd_get 0 (revenue buyOffer) m =
     sum_list (map (\<lambda>ev. real_of_int (amount ev) * price ev)
       (filter (\<lambda>ev. merchant_id ev = m) buyOffer)) \<and>
   merged_inventory strptime buyOffer producer =
     merged_inventory strptime (filter (\<lambda>sale. http_code sale = 200) buyOffer) producer \<and>
   (merged_inventory strptime buyOffer producer = Inr (steps, st) \<longrightarrow>
      (\<exists>sales' orders'.
         convert_timestamps strptime (filter (\<lambda>sale. http_code sale = 200) buyOffer) =
           Inr sales' \<and>
         convert_timestamps strptime producer = Inr orders' \<and>
         length orders' = length producer \<and>
         merge_loop sales' orders' initial_state = Inr (steps, st)) \<and>
      (\<forall>step\<in>set steps.
         (fst step = Sale_first \<and>
          (\<exists>sale\<in>set buyOffer. http_code sale = 200 \<and>
             strptime (timestamp sale) = Some (fst (snd (snd step))) \<and>
             merchant_id sale = fst (snd step) \<and> - amount sale = snd (snd (snd step)))) \<or>
         (fst step = Order_first \<and>
          (\<exists>order\<in>set producer.
             strptime (timestamp order) = Some (fst (snd (snd step))) \<and>
             merchant_id order = fst (snd step) \<and> amount order = snd (snd (snd step))))))"
proof (intro conjI impI)
  show "dd_get 0 (revenue buyOffer) m =
     sum_list (map (\<lambda>ev. real_of_int (amount ev) * price ev)
       (filter (\<lambda>ev. merchant_id ev = m) buyOffer))"
    by (rule revenue_get)
  show "merged_inventory strptime buyOffer producer =
     merged_inventory strptime (filter (\<lambda>sale. http_code sale = 200) buyOffer) producer"
    by (simp add: merged_inventory_def)
next
  assume run: "merged_inventory strptime buyOffer producer = Inr (steps, st)"
  let ?ok = "filter (\<lambda>sale. http_code sale = 200) buyOffer"
  from run obtain sales' where s: "convert_timestamps strptime ?ok = Inr sales'"
    by (cases "convert_timestamps strptime ?ok") (simp_all add: merged_inventory_def)
  from run s obtain orders' where o: "convert_timestamps strptime producer = Inr orders'"
    by (cases "convert_timestamps strptime producer") (simp_all add: merged_inventory_def)
  from run s o have loop: "merge_loop sales' orders' initial_state = Inr (steps, st)"
    by (simp add: merged_inventory_def)
  from s have sp: "\<forall>ev\<in>set ?ok. strptime (timestamp ev) \<noteq> None"
    and s': "sales' = map (\<lambda>ev. \<lparr>merchant_id = merchant_id ev,
                            timestamp = the (strptime (timestamp ev)),
                            amount = amount ev, \<dots> = stock_event.more ev\<rparr>) ?ok"
    by (simp_all add: convert_timestamps_cases split: if_splits)
  from o have op: "\<forall>ev\<in>set producer. strptime (timestamp ev) \<noteq> None"
    and o': "orders' = map (\<lambda>ev. \<lparr>merchant_id = merchant_id ev,
                            timestamp = the (strptime (timestamp ev)),
                            amount = amount ev, \<dots> = stock_event.more ev\<rparr>) producer"
    by (simp_all add: convert_timestamps_cases split: if_splits)
  from o' have len: "length orders' = length producer" by simp
  from s o len loop
  show "\<exists>sales' orders'.
         convert_timestamps strptime ?ok = Inr sales' \<and>
         convert_timestamps strptime producer = Inr orders' \<and>
         length orders' = length producer \<and>
         merge_loop sales' orders' initial_state = Inr (steps, st)"
    by (intro exI conjI)
  have steps: "steps = interleave orders' sales'"
    using merge_loop_interleave [OF loop] by (simp add: initial_state_def)
  show "\<forall>step\<in>set steps.
         (fst step = Sale_first \<and>
          (\<exists>sale\<in>set buyOffer. http_code sale = 200 \<and>
             strptime (timestamp sale) = Some (fst (snd (snd step))) \<and>
             merchant_id sale = fst (snd step) \<and> - amount sale = snd (snd (snd step)))) \<or>
         (fst step = Order_first \<and>
          (\<exists>order\<in>set producer.
             strptime (timestamp order) = Some (fst (snd (snd step))) \<and>
             merchant_id order = fst (snd step) \<and> amount order = snd (snd (snd step))))"
  proof
    fix step assume mem: "step \<in> set steps"
    obtain b d where step: "step = (b, d)" by (cases step)
    from mem steps have "fst step = Order_first \<or> fst step = Sale_first"
      using interleave_branches by blast
    then show "(fst step = Sale_first \<and>
          (\<exists>sale\<in>set buyOffer. http_code sale = 200 \<and>
             strptime (timestamp sale) = Some (fst (snd (snd step))) \<and>
             merchant_id sale = fst (snd step) \<and> - amount sale = snd (snd (snd step)))) \<or>
         (fst step = Order_first \<and>
          (\<exists>order\<in>set producer.
             strptime (timestamp order) = Some (fst (snd (snd step))) \<and>
             merchant_id order = fst (snd step) \<and> amount order = snd (snd (snd step))))"
    proof
      assume f: "fst step = Order_first"
      with mem steps step have "(Order_first, d) \<in> set (interleave orders' sales')"
        by simp
      then have "d \<in> order_delta ` set orders'"
        by (rule interleave_order_origin)
      then obtain ev where ev: "ev \<in> set producer"
        and d: "d = (merchant_id ev, the (strptime (timestamp ev)), amount ev)"
        unfolding o' by (auto simp: converted_order_delta)
      from ev op have "strptime (timestamp ev) = Some (the (strptime (timestamp ev)))"
        by simp
      with ev d f step show ?thesis by auto
    next
      assume f: "fst step = Sale_first"
      with mem steps step have "(Sale_first, d) \<in> set (interleave orders' sales')"
        by simp
      then have "d \<in> sale_delta ` set sales'"
        by (rule interleave_sale_origin)
      then obtain ev where ev: "ev \<in> set ?ok"
        and d: "d = (merchant_id ev, the (strptime (timestamp ev)), - amount ev)"
        unfolding s' by (auto simp: converted_sale_delta)
      from ev sp have "strptime (timestamp ev) = Some (the (strptime (timestamp ev)))"
        by simp
      with ev d f step show ?thesis by auto
    qed
  qed
qed

theorem failed_purchases_only_in_revenue_witness:
  "dd_get 0 (revenue (rejected_sale # example_buyOffer)) ''m2'' = 50 \<and>
   merged_inventory example_strptime (rejected_sale # example_buyOffer) restocked_producer =
     Inr ([(Order_first, ''m1'', 0, 5), (Sale_first, ''m1'', 1, -2),
           (Sale_first, ''m2'', 2, -1)],
          \<lparr>sale_index = 2, order_index = 1,
           inventory_progressions = [(''m1'', [(0, 5), (1, -2)]), (''m2'', [(2, -1)])]\<rparr>) \<and>
   (\<exists>sale\<in>set (rejected_sale # example_buyOffer). http_code sale = 200 \<and>
      example_strptime (timestamp sale) = Some 2 \<and> merchant_id sale = ''m2'' \<and>
      - amount sale = - 1)"
proof -
  let ?steps = "[(Order_first, ''m1'', 0::nat, 5::int), (Sale_first, ''m1'', 1, -2),
           (Sale_first, ''m2'', 2, -1)]"
  let ?st = "\<lparr>sale_index = 2, order_index = 1,
           inventory_progressions = [(''m1'', [(0::nat, 5::int), (1, -2)]), (''m2'', [(2, -1)])]\<rparr>"
  have run: "merged_inventory example_strptime (rejected_sale # example_buyOffer)
      restocked_producer = Inr (?steps, ?st)"
    by (simp add: graph_eval example_strptime_def example_buyOffer_def
          restocked_producer_def rejected_sale_def)
  note t = failed_purchases_only_in_revenue [of "rejected_sale # example_buyOffer" "''m2''"
      example_strptime restocked_producer ?steps ?st]
  from t have "dd_get 0 (revenue (rejected_sale # example_buyOffer)) ''m2'' =
     sum_list (map (\<lambda>ev. real_of_int (amount ev) * price ev)
       (filter (\<lambda>ev. merchant_id ev = ''m2'') (rejected_sale # example_buyOffer)))"
    by (elim conjE)
  then have r: "dd_get 0 (revenue (rejected_sale # example_buyOffer)) ''m2'' = 50"
    by (simp add: rejected_sale_def example_buyOffer_def)
  from t run have a: "\<forall>step\<in>set ?steps.
      (fst step = Sale_first \<and>
       (\<exists>sale\<in>set (rejected_sale # example_buyOffer). http_code sale = 200 \<and>
          example_strptime (timestamp sale) = Some (fst (snd (snd step))) \<and>
          merchant_id sale = fst (snd step) \<and> - amount sale = snd (snd (snd step)))) \<or>
      (fst step = Order_first \<and>
       (\<exists>order\<in>set restocked_producer.
          example_strptime (timestamp order) = Some (fst (snd (snd step))) \<and>
          merchant_id order = fst (snd step) \<and> amount order = snd (snd (snd step))))"
    by (elim conjE impE) assumption+
  have "(Sale_first, ''m2'', 2::nat, - 1 :: int) \<in> set ?steps" by simp
  from a [rule_format, OF this]
  have b: "\<exists>sale\<in>set (rejected_sale # example_buyOffer). http_code sale = 200 \<and>
      example_strptime (timestamp sale) = Some 2 \<and> merchant_id sale = ''m2'' \<and>
      - amount sale = - 1"
    by simp
  from r run b show ?thesis by (intro conjI)
qed

text \<open>
  C3, as stated, fails where it says that every series is non-decreasing in timestamp:
  the loop does not check the order of its inputs, and orders that are not sorted by
  timestamp give a series whose dates go back in time.
\<close>

theorem unsorted_orders_series_not_in_time_order:
  "create_inventory_graph example_strptime example_mapping example_buyOffer unsorted_producer =
     Inr [\<lparr>label = ''Acme'', dates = [1, 0], inventory_levels = [7, 12]\<rparr>] \<and>
   \<not> sorted (dates \<lparr>label = ''Acme'', dates = [1, 0 :: nat], inventory_levels = [7, 12]\<rparr>)"
  by (simp add: graph_eval example_strptime_def example_mapping_def example_buyOffer_def
        unsorted_producer_def)

text \<open>
  C3, amended. When the graph is drawn, there is one series for each merchant that has
  a delta in the merged sequence, and none for the others. The dates of a series are
  the timestamps of the merchant's partition of the merged sequence, in the order of the
  merged sequence; the series has as many levels as the partition has deltas, and the
  level at position \<open>k\<close> (from 0) is the sum of the first \<open>k + 1\<close> changes of the
  partition. When the successful sales and the orders are both sorted by timestamp, the
  dates of every series are non-decreasing.
\<close>

theorem inventory_levels_prefix_sums:
  assumes "create_inventory_graph strptime merchant_id_mapping buyOffer producer = Inr series"
  shows "\<exists>steps st.
     merged_inventory strptime buyOffer producer = Inr (steps, st) \<and>
     length series = length (inventory_progressions st) \<and>
     distinct (map fst (inventory_progressions st)) \<and>
     fst ` set (inventory_progressions st) = {m. partition_of m steps \<noteq> []} \<and>
     (\<forall>n<length series. \<forall>m. m = fst (inventory_progressions st ! n) \<longrightarrow>
        dict_get merchant_id_mapping m = Inr (label (series ! n)) \<and>
        dates (series ! n) = map fst (partition_of m steps) \<and>
        length (inventory_levels (series ! n)) = length (partition_of m steps) \<and>
        (\<forall>k<length (partition_of m steps).
           inventory_levels (series ! n) ! k =
             sum_list (take (Suc k) (map snd (partition_of m steps)))) \<and>
        (sorted (map (\<lambda>ev. strptime (timestamp ev))
                  (filter (\<lambda>sale. http_code sale = 200) buyOffer)) \<and>
         sorted (map (\<lambda>ev. strptime (timestamp ev)) producer) \<longrightarrow>
           sorted (dates (series ! n))))"
proof -
  let ?ok = "filter (\<lambda>sale. http_code sale = 200) buyOffer"
  from assms obtain steps st where run: "merged_inventory strptime buyOffer producer = Inr (steps, st)"
    and each: "for_each (series_of merchant_id_mapping (inventory_progressions st))
            (map fst (inventory_progressions st)) = Inr series"
    by (cases "merged_inventory strptime buyOffer producer")
       (auto simp: create_inventory_graph_def)
  from run obtain sales' where s: "convert_timestamps strptime ?ok = Inr sales'"
    by (cases "convert_timestamps strptime ?ok") (simp_all add: merged_inventory_def)
  from run s obtain orders' where o: "convert_timestamps strptime producer = Inr orders'"
    by (cases "convert_timestamps strptime producer") (simp_all add: merged_inventory_def)
  from run s o have loop: "merge_loop sales' orders' initial_state = Inr (steps, st)"
    by (simp add: merged_inventory_def)
  have steps: "steps = interleave orders' sales'"
    using merge_loop_interleave [OF loop] by (simp add: initial_state_def)
  let ?ip = "inventory_progressions st"
  from merge_loop_steps [of sales' orders' initial_state] loop
  have ip: "?ip = foldl (\<lambda>ip step. record_delta (snd step) ip) [] steps"
    unfolding steps by (auto simp: initial_state_def)
  have part: "dd_get [] ?ip m = partition_of m steps" for m
    unfolding ip by (simp add: dd_get_record_deltas dd_get_Nil)
  have dist: "distinct (map fst ?ip)"
    unfolding ip by (rule distinct_record_deltas) simp
  have keys: "fst ` set ?ip = {m. partition_of m steps \<noteq> []}"
    unfolding ip by (simp add: keys_record_deltas partition_of_nonempty)
  from for_each_nth [OF each] have len: "length series = length ?ip"
    and nth: "\<forall>n<length ?ip. series_of merchant_id_mapping ?ip (fst (?ip ! n)) = Inr (series ! n)"
    by simp_all
  have srt: "sorted (map fst (partition_of m steps))"
    if "sorted (map (\<lambda>ev. strptime (timestamp ev)) ?ok) \<and>
         sorted (map (\<lambda>ev. strptime (timestamp ev)) producer)" for m
  proof -
    from that have "sorted (map timestamp sales')" "sorted (map timestamp orders')"
      using convert_timestamps_sorted [OF s] convert_timestamps_sorted [OF o] by simp_all
    then have "sorted (map (\<lambda>step. fst (snd (snd step))) steps)"
      unfolding steps by (intro interleave_sorted)
    then show ?thesis by (rule sorted_partition_dates)
  qed
  have main: "dict_get merchant_id_mapping m = Inr (label (series ! n)) \<and>
        dates (series ! n) = map fst (partition_of m steps) \<and>
        length (inventory_levels (series ! n)) = length (partition_of m steps) \<and>
        (\<forall>k<length (partition_of m steps).
           inventory_levels (series ! n) ! k =
             sum_list (take (Suc k) (map snd (partition_of m steps)))) \<and>
        (sorted (map (\<lambda>ev. strptime (timestamp ev)) ?ok) \<and>
         sorted (map (\<lambda>ev. strptime (timestamp ev)) producer) \<longrightarrow>
           sorted (dates (series ! n)))"
    if n: "n < length series" and m: "m = fst (?ip ! n)" for n m
  proof -
    from n len nth m have "series_of merchant_id_mapping ?ip m = Inr (series ! n)"
      by simp
    from series_of_Inr [OF this]
    have l: "dict_get merchant_id_mapping m = Inr (label (series ! n))"
      and d: "dates (series ! n) = map fst (partition_of m steps)"
      and i: "inventory_levels (series ! n) = accumulate (map snd (partition_of m steps))"
      unfolding part by simp_all
    from i have "length (inventory_levels (series ! n)) = length (partition_of m steps)"
      by (simp add: length_accumulate)
    moreover from i have "\<forall>k<length (partition_of m steps).
           inventory_levels (series ! n) ! k =
             sum_list (take (Suc k) (map snd (partition_of m steps)))"
      by (simp add: nth_accumulate)
    moreover have "sorted (map (\<lambda>ev. strptime (timestamp ev)) ?ok) \<and>
         sorted (map (\<lambda>ev. strptime (timestamp ev)) producer) \<longrightarrow>
           sorted (dates (series ! n))"
      unfolding d using srt by blast
    ultimately show ?thesis using l d by (intro conjI)
  qed
  from run len dist keys main show ?thesis
    by (intro exI conjI allI impI) (assumption | blast)+
qed

theorem inventory_levels_prefix_sums_witness:
  "create_inventory_graph example_strptime example_mapping example_buyOffer restocked_producer =
     Inr [\<lparr>label = ''Acme'', dates = [0, 1], inventory_levels = [5, 3]\<rparr>,
          \<lparr>label = ''Bolt'', dates = [2], inventory_levels = [-1]\<rparr>] \<and>
   sorted (map (\<lambda>ev. example_strptime (timestamp ev))
             (filter (\<lambda>sale. http_code sale = 200) example_buyOffer)) \<and>
   sorted (map (\<lambda>ev. example_strptime (timestamp ev)) restocked_producer) \<and>
   partition_of ''m1'' [(Order_first, ''m1'', 0::nat, 5::int), (Sale_first, ''m1'', 1, -2),
                        (Sale_first, ''m2'', 2, -1)] = [(0, 5), (1, -2)] \<and>
   dates \<lparr>label = ''Acme'', dates = [0, 1 :: nat], inventory_levels = [5, 3]\<rparr> =
     map fst [(0, 5 :: int), (1, -2)] \<and>
   inventory_levels \<lparr>label = ''Acme'', dates = [0, 1 :: nat], inventory_levels = [5, 3]\<rparr> ! 1 =
     sum_list (take (Suc 1) (map snd [(0 :: nat, 5 :: int), (1, -2)])) \<and>
   sorted (dates \<lparr>label = ''Acme'', dates = [0, 1 :: nat], inventory_levels = [5, 3]\<rparr>)"
proof -
  let ?A = "\<lparr>label = ''Acme'', dates = [0, 1 :: nat], inventory_levels = [5, 3]\<rparr>"
  let ?B = "\<lparr>label = ''Bolt'', dates = [2 :: nat], inventory_levels = [-1]\<rparr>"
  let ?steps = "[(Order_first, ''m1'', 0::nat, 5::int), (Sale_first, ''m1'', 1, -2),
           (Sale_first, ''m2'', 2, -1)]"
  let ?st = "\<lparr>sale_index = 2, order_index = 1,
           inventory_progressions = [(''m1'', [(0::nat, 5::int), (1, -2)]), (''m2'', [(2, -1)])]\<rparr>"
  have g: "create_inventory_graph example_strptime example_mapping example_buyOffer
      restocked_producer = Inr [?A, ?B]"
    by (simp add: graph_eval example_strptime_def example_mapping_def example_buyOffer_def
          restocked_producer_def)
  have run: "merged_inventory example_strptime example_buyOffer restocked_producer =
      Inr (?steps, ?st)"
    by (simp add: graph_eval example_strptime_def example_buyOffer_def restocked_producer_def)
  have s1: "sorted (map (\<lambda>ev. example_strptime (timestamp ev))
             (filter (\<lambda>sale. http_code sale = 200) example_buyOffer))"
    by (simp add: example_strptime_def example_buyOffer_def)
  have s2: "sorted (map (\<lambda>ev. example_strptime (timestamp ev)) restocked_producer)"
    by (simp add: example_strptime_def restocked_producer_def)
  have p: "partition_of ''m1'' ?steps = [(0, 5), (1, -2)]"
    by (simp add: partition_of_def)
  from inventory_levels_prefix_sums [OF g] obtain steps st where
    r: "merged_inventory example_strptime example_buyOffer restocked_producer = Inr (steps, st)"
    and a: "\<forall>n<length [?A, ?B]. \<forall>m. m = fst (inventory_progressions st ! n) \<longrightarrow>
        dict_get example_mapping m = Inr (label ([?A, ?B] ! n)) \<and>
        dates ([?A, ?B] ! n) = map fst (partition_of m steps) \<and>
        length (inventory_levels ([?A, ?B] ! n)) = length (partition_of m steps) \<and>
        (\<forall>k<length (partition_of m steps).
           inventory_levels ([?A, ?B] ! n) ! k =
             sum_list (take (Suc k) (map snd (partition_of m steps)))) \<and>
        (sorted (map (\<lambda>ev. example_strptime (timestamp ev))
                  (filter (\<lambda>sale. http_code sale = 200) example_buyOffer)) \<and>
         sorted (map (\<lambda>ev. example_strptime (timestamp ev)) restocked_producer) \<longrightarrow>
           sorted (dates ([?A, ?B] ! n)))"
    by blast
  from r run have eq: "steps = ?steps" "st = ?st" by simp_all
  have n: "(0::nat) < length [?A, ?B]" by simp
  have m: "''m1'' = fst (inventory_progressions st ! 0)" unfolding eq by simp
  note b = a [rule_format, OF n m]
  note d = b [THEN conjunct2, THEN conjunct1]
  note k = b [THEN conjunct2, THEN conjunct2, THEN conjunct2, THEN conjunct1]
  note s = b [THEN conjunct2, THEN conjunct2, THEN conjunct2, THEN conjunct2]
  from d have d': "dates ?A = map fst [(0, 5 :: int), (1, -2)]"
    unfolding eq p by simp
  from k have "inventory_levels ([?A, ?B] ! 0) ! 1 =
      sum_list (take (Suc 1) (map snd (partition_of ''m1'' steps)))"
    unfolding eq p by simp
  then have k': "inventory_levels ?A ! 1 =
      sum_list (take (Suc 1) (map snd [(0 :: nat, 5 :: int), (1, -2)]))"
    unfolding eq p by simp
  from s s1 s2 have s': "sorted (dates ?A)" by simp
  from g s1 s2 p d' k' s' show ?thesis by (intro conjI)
qed

end
